theory Spec2Isabelle
  imports Main
begin

section \<open>JavaScript values\<close>

text \<open>
  The values that travel through the adapter: JSON values, \<open>undefined\<close>, and Error
  objects (the values that are thrown). Numbers are restricted to integers; the only
  property of a number the program depends on is whether it is zero. An object is its
  list of own properties, looked up from the front.
\<close>

datatype jsval =
    JUndefined
  | JNull
  | JBool bool
  | JNum int
  | JStr string
  | JArr "jsval list"
  | JObj "(string \<times> jsval) list"
  | JError string

text \<open>JavaScript truthiness, as used by \<open>||\<close>, \<open>&&\<close>, \<open>!\<close> and \<open>if\<close>.\<close>

fun truthy :: "jsval \<Rightarrow> bool" where
  "truthy JUndefined = False"
| "truthy JNull = False"
| "truthy (JBool b) = b"
| "truthy (JNum n) = (n \<noteq> 0)"
| "truthy (JStr s) = (s \<noteq> [])"
| "truthy (JArr xs) = True"
| "truthy (JObj fs) = True"
| "truthy (JError m) = True"

text \<open>The expression \<open>data || true\<close>.\<close>

definition or_true :: "jsval \<Rightarrow> jsval" where
  "or_true data = (if truthy data then data else JBool True)"

definition type_error :: jsval where
  "type_error = JError ''TypeError''"

text \<open>
  Reading a property \<open>v.k\<close>. On \<open>undefined\<close> and \<open>null\<close> the read throws a TypeError;
  on a plain object it yields the own property or \<open>undefined\<close>; primitives, arrays and
  Error objects have none of the properties this program reads (\<open>className\<close>,
  \<open>original\<close>, \<open>update\<close>, \<open>object\<close>, \<open>user\<close>, \<open>master\<close>, \<open>params\<close>,
  \<open>installationId\<close>).
\<close>

fun member :: "jsval \<Rightarrow> string \<Rightarrow> jsval + jsval" where
  "member JUndefined k = Inl type_error"
| "member JNull k = Inl type_error"
| "member (JObj fs) k = Inr (case map_of fs k of None \<Rightarrow> JUndefined | Some v \<Rightarrow> v)"
| "member v k = Inr JUndefined"

text \<open>
  The assignment \<open>v.k = x\<close> on a value that is neither \<open>undefined\<close> nor \<open>null\<close>: it
  replaces or adds the property of an object and is silently ignored on a primitive.
  Arrays carry no named properties in this model.
\<close>

fun assign_prop :: "string \<Rightarrow> jsval \<Rightarrow> (string \<times> jsval) list \<Rightarrow> (string \<times> jsval) list" where
  "assign_prop k x [] = [(k, x)]"
| "assign_prop k x ((k', y) # fs) =
     (if k = k' then (k, x) # fs else (k', y) # assign_prop k x fs)"

fun set_member :: "jsval \<Rightarrow> string \<Rightarrow> jsval \<Rightarrow> jsval" where
  "set_member (JObj fs) k x = JObj (assign_prop k x fs)"
| "set_member v k x = v"

text \<open>String conversion, as performed by \<open>'/beforeSave_' + className\<close>.\<close>

function nat_digits :: "nat \<Rightarrow> string" where
  "nat_digits n =
     (if n < 10 then [''0123456789'' ! n]
      else nat_digits (n div 10) @ [''0123456789'' ! (n mod 10)])"
  by pat_completeness auto
termination
  by (relation "measure id") auto

definition int_to_string :: "int \<Rightarrow> string" where
  "int_to_string i = (if i < 0 then CHR ''-'' # nat_digits (nat (- i)) else nat_digits (nat i))"

fun join_comma :: "string list \<Rightarrow> string" where
  "join_comma [] = []"
| "join_comma [s] = s"
| "join_comma (s # t # ss) = s @ CHR '','' # join_comma (t # ss)"

fun to_string :: "jsval \<Rightarrow> string" where
  "to_string JUndefined = ''undefined''"
| "to_string JNull = ''null''"
| "to_string (JBool b) = (if b then ''true'' else ''false'')"
| "to_string (JNum n) = int_to_string n"
| "to_string (JStr s) = s"
| "to_string (JArr xs) =
     join_comma (map (\<lambda>x. if x = JUndefined \<or> x = JNull then [] else to_string x) xs)"
| "to_string (JObj fs) = ''[object Object]''"
| "to_string (JError m) = m"

section \<open>The domain model library\<close>

text \<open>
  \<open>Parse.Object.fromJSON\<close>, \<open>Parse._decode(undefined, _)\<close>, \<open>object.set\<close>,
  \<open>object.toJSON\<close> and \<open>Parse._encode\<close> belong to the Parse SDK, an external library.
  They are parameters of the model. Each may throw (\<open>Inl\<close> carries the thrown value),
  except \<open>toJSON\<close>, which returns a plain object, given by its property list. The type
  \<open>'o\<close> is the type of inflated domain objects.
\<close>

record 'o parse_sdk =
  fromJSON :: "jsval \<Rightarrow> jsval + 'o"
  decode :: "jsval \<Rightarrow> jsval + jsval"
  set_attrs :: "'o \<Rightarrow> jsval \<Rightarrow> jsval + 'o"
  toJSON :: "'o \<Rightarrow> (string \<times> jsval) list"
  encode :: "jsval \<Rightarrow> jsval + jsval"

section \<open>Request and response\<close>

datatype http_method = GET | HEAD | POST | PUT | DELETE | PATCH | OPTIONS

text \<open>
  The closures that the middleware stores in \<open>res.success\<close> and \<open>res.error\<close>, one
  constructor per function expression of the source; a wrapper holds the closure it
  captured in \<open>originalSuccess\<close>. \<open>NoMethod\<close> is the property before
  \<open>addParseResponseMethods\<close> has run.
\<close>

datatype res_fn =
    NoMethod
  | ParseSuccess
  | ParseError
  | EncodeWrap res_fn
  | EchoObject res_fn

text \<open>The middleware functions, as recorded in \<open>trace\<close> when they are entered.\<close>

datatype step =
    SValidateWebhookRequest
  | SJsonParser
  | SEntryLogger
  | SUpdateRequestInstallationId
  | SUpdateRequestFunctionParams
  | SAddParseResponseMethods
  | SEncodeSuccessResponseObject
  | SInflateParseObject
  | SInflateParseUser
  | SBeforeSaveResponseMojo
  | SEmptyResponse
  | SHandler

text \<open>
  One in-flight request: the fields of Express's \<open>req\<close> and \<open>res\<close> that the program
  reads or writes. \<open>parsed_json\<close> is what the body parser will yield for the request
  (a request whose body the parser rejects never reaches a route and is not modelled);
  \<open>sent\<close> is the response that has been transmitted (status and body); \<open>thrown\<close> is an
  exception that has escaped the pipeline; \<open>trace\<close> lists the middleware entered so
  far and is not a field of the source's objects. Console output is not modelled.
\<close>

record 'o ctx =
  req_method :: http_method
  req_path :: string
  req_header :: "string option"
  parsed_json :: jsval
  req_body :: jsval
  req_object :: "'o option"
  req_user :: "'o option"
  req_master :: jsval
  req_params :: jsval
  req_installationId :: jsval
  res_success :: res_fn
  res_error :: res_fn
  sent :: "(nat \<times> jsval) option"
  thrown :: "jsval option"
  trace :: "step list"

definition incoming :: "http_method \<Rightarrow> string \<Rightarrow> string option \<Rightarrow> jsval \<Rightarrow> 'o ctx" where
  "incoming m p h b =
     \<lparr> req_method = m, req_path = p, req_header = h, parsed_json = b,
       req_body = JUndefined, req_object = None, req_user = None,
       req_master = JUndefined, req_params = JObj [], req_installationId = JUndefined,
       res_success = NoMethod, res_error = NoMethod,
       sent = None, thrown = None, trace = [] \<rparr>"

definition throw :: "jsval \<Rightarrow> 'o ctx \<Rightarrow> 'o ctx" where
  "throw e c = c\<lparr>thrown := Some e\<rparr>"

definition enter :: "step \<Rightarrow> 'o ctx \<Rightarrow> 'o ctx" where
  "enter s c = c\<lparr>trace := trace c @ [s]\<rparr>"

text \<open>
  \<open>res.status(code).send(body)\<close>. Express throws when a response has already been
  sent; the first response stays the transmitted one.
\<close>

definition headers_sent :: jsval where
  "headers_sent = JError ''ERR_HTTP_HEADERS_SENT''"

definition status_send :: "nat \<Rightarrow> jsval \<Rightarrow> 'o ctx \<Rightarrow> 'o ctx" where
  "status_send code b c =
     (case sent c of
        None \<Rightarrow> c\<lparr>sent := Some (code, b)\<rparr>
      | Some r \<Rightarrow> throw headers_sent c)"

definition successResponse :: "jsval \<Rightarrow> 'o ctx \<Rightarrow> 'o ctx" where
  "successResponse data c = status_send 200 (JObj [(''success'', or_true data)]) c"

definition errorResponse :: "jsval \<Rightarrow> 'o ctx \<Rightarrow> 'o ctx" where
  "errorResponse message c = status_send 200 (JObj [(''error'', or_true message)]) c"

text \<open>Calling a closure stored in \<open>res.success\<close> or \<open>res.error\<close> with one argument.\<close>

fun call_res :: "'o parse_sdk \<Rightarrow> res_fn \<Rightarrow> jsval \<Rightarrow> 'o ctx \<Rightarrow> 'o ctx" where
  "call_res sdk NoMethod data c = throw type_error c"
| "call_res sdk ParseSuccess data c = successResponse data c"
| "call_res sdk ParseError data c = errorResponse data c"
| "call_res sdk (EncodeWrap originalSuccess) data c =
     (case encode sdk data of
        Inl e \<Rightarrow> throw e c
      | Inr d \<Rightarrow> call_res sdk originalSuccess d c)"
| "call_res sdk (EchoObject originalSuccess) data c =
     (case req_object c of
        None \<Rightarrow> throw type_error c
      | Some ob \<Rightarrow> call_res sdk originalSuccess (JObj (toJSON sdk ob)) c)"

section \<open>Middleware\<close>

text \<open>
  A middleware takes the request state and returns the new state together with
  whether it called \<open>next()\<close>. A middleware that throws does not call \<open>next()\<close>.
\<close>

type_synonym 'o middleware = "'o ctx \<Rightarrow> 'o ctx \<times> bool"

definition validateWebhookRequest :: "string option \<Rightarrow> 'o middleware" where
  "validateWebhookRequest webhookKey c0 =
     (let c = enter SValidateWebhookRequest c0 in
      if req_header c \<noteq> webhookKey
      then (errorResponse (JStr ''Unauthorized Request.'') c, False)
      else (c, True))"

definition jsonParser :: "'o middleware" where
  "jsonParser c0 =
     (let c = enter SJsonParser c0 in (c\<lparr>req_body := parsed_json c\<rparr>, True))"

text \<open>
  The object that \<open>inflateParseObject\<close> stores in \<open>req.object\<close>, or the value thrown on
  the way.
\<close>

definition inflate_from_object :: "'o parse_sdk \<Rightarrow> jsval \<Rightarrow> jsval + 'o" where
  "inflate_from_object sdk body =
     (case member body ''object'' of
        Inl e \<Rightarrow> Inl e
      | Inr j \<Rightarrow> fromJSON sdk j)"

definition inflate_from_update :: "'o parse_sdk \<Rightarrow> jsval \<Rightarrow> jsval \<Rightarrow> jsval + 'o" where
  "inflate_from_update sdk original update =
     (case fromJSON sdk original of
        Inl e \<Rightarrow> Inl e
      | Inr ob \<Rightarrow>
          (case decode sdk update of
             Inl e \<Rightarrow> Inl e
           | Inr attrs \<Rightarrow> set_attrs sdk ob attrs))"

definition inflated_object :: "'o parse_sdk \<Rightarrow> jsval \<Rightarrow> jsval + 'o" where
  "inflated_object sdk body =
     (case member body ''original'' of
        Inl e \<Rightarrow> Inl e
      | Inr original \<Rightarrow>
          if truthy original then
            (case member body ''update'' of
               Inl e \<Rightarrow> Inl e
             | Inr update \<Rightarrow>
                 if truthy update then inflate_from_update sdk original update
                 else inflate_from_object sdk body)
          else inflate_from_object sdk body)"

definition inflateParseObject :: "'o parse_sdk \<Rightarrow> 'o middleware" where
  "inflateParseObject sdk c0 =
     (let c = enter SInflateParseObject c0 in
      case inflated_object sdk (req_body c) of
        Inl e \<Rightarrow> (throw e c, False)
      | Inr ob \<Rightarrow> (c\<lparr>req_object := Some ob\<rparr>, True))"

definition addParseResponseMethods :: "'o middleware" where
  "addParseResponseMethods c0 =
     (let c = enter SAddParseResponseMethods c0 in
      (c\<lparr>res_success := ParseSuccess, res_error := ParseError\<rparr>, True))"

definition encodeSuccessResponseObject :: "'o middleware" where
  "encodeSuccessResponseObject c0 =
     (let c = enter SEncodeSuccessResponseObject c0 in
      (c\<lparr>res_success := EncodeWrap (res_success c)\<rparr>, True))"

definition updateRequestFunctionParams :: "'o middleware" where
  "updateRequestFunctionParams c0 =
     (let c = enter SUpdateRequestFunctionParams c0 in
      case member (req_body c) ''params'' of
        Inl e \<Rightarrow> (throw e c, False)
      | Inr p \<Rightarrow> (c\<lparr>req_params := p\<rparr>, True))"

definition updateRequestInstallationId :: "'o middleware" where
  "updateRequestInstallationId c0 =
     (let c = enter SUpdateRequestInstallationId c0 in
      case member (req_body c) ''installationId'' of
        Inl e \<Rightarrow> (throw e c, False)
      | Inr i \<Rightarrow> (c\<lparr>req_installationId := i\<rparr>, True))"

text \<open>
  \<open>inflateParseUser\<close>: the default class name is written into \<open>req.body.user\<close> itself,
  then the user is inflated; \<open>req.master\<close> is copied whether or not a user is present.
\<close>

definition default_class_name :: "jsval \<Rightarrow> jsval" where
  "default_class_name user =
     (if member user ''className'' = Inr JUndefined
      then set_member user ''className'' (JStr ''_User'')
      else user)"

definition copy_master :: "'o ctx \<Rightarrow> 'o ctx \<times> bool" where
  "copy_master c =
     (case member (req_body c) ''master'' of
        Inl e \<Rightarrow> (throw e c, False)
      | Inr m \<Rightarrow> (c\<lparr>req_master := m\<rparr>, True))"

definition inflateParseUser :: "'o parse_sdk \<Rightarrow> 'o middleware" where
  "inflateParseUser sdk c0 =
     (let c = enter SInflateParseUser c0 in
      case member (req_body c) ''user'' of
        Inl e \<Rightarrow> (throw e c, False)
      | Inr user \<Rightarrow>
          if truthy user then
            (let user' = default_class_name user;
                 c' = c\<lparr>req_body := set_member (req_body c) ''user'' user'\<rparr>
             in case fromJSON sdk user' of
                  Inl e \<Rightarrow> (throw e c', False)
                | Inr u \<Rightarrow> copy_master (c'\<lparr>req_user := Some u\<rparr>))
          else copy_master c)"

definition emptyResponse :: "'o middleware" where
  "emptyResponse c0 =
     (let c = status_send 200 (JObj []) (enter SEmptyResponse c0) in
      case thrown c of
        None \<Rightarrow> (c, True)
      | Some e \<Rightarrow> (c, False))"

definition entryLogger :: "jsval \<Rightarrow> string \<Rightarrow> 'o middleware" where
  "entryLogger className actionType c0 = (enter SEntryLogger c0, True)"

definition beforeSaveResponseMojo :: "'o middleware" where
  "beforeSaveResponseMojo c0 =
     (let c = enter SBeforeSaveResponseMojo c0 in
      (c\<lparr>res_success := EchoObject (res_success c)\<rparr>, True))"

section \<open>Handlers\<close>

text \<open>
  What a save or delete handler does with the request it is given, in order: call
  \<open>res.success(data)\<close> (\<open>res.success()\<close> is the call with \<open>undefined\<close>), call
  \<open>res.error(data)\<close>, change \<open>req.object\<close> in place, or throw. The handler chooses its
  actions from the state it is invoked with. A handler that calls \<open>next()\<close> or writes
  to \<open>res\<close> other than through these two methods is outside the model.
\<close>

datatype 'o haction =
    CallSuccess jsval
  | CallError jsval
  | Mutate "'o \<Rightarrow> 'o"
  | Raise jsval

type_synonym 'o hook = "'o ctx \<Rightarrow> 'o haction list"

fun do_action :: "'o parse_sdk \<Rightarrow> 'o haction \<Rightarrow> 'o ctx \<Rightarrow> 'o ctx" where
  "do_action sdk (CallSuccess data) c = call_res sdk (res_success c) data c"
| "do_action sdk (CallError data) c = call_res sdk (res_error c) data c"
| "do_action sdk (Mutate f) c = c\<lparr>req_object := map_option f (req_object c)\<rparr>"
| "do_action sdk (Raise e) c = throw e c"

text \<open>The actions run in order and stop at the first exception.\<close>

fun run_actions :: "'o parse_sdk \<Rightarrow> 'o haction list \<Rightarrow> 'o ctx \<Rightarrow> 'o ctx" where
  "run_actions sdk [] c = c"
| "run_actions sdk (a # as) c =
     (case thrown c of
        None \<Rightarrow> run_actions sdk as (do_action sdk a c)
      | Some e \<Rightarrow> c)"

text \<open>A save or delete handler is the last middleware of its route.\<close>

definition hook_handler :: "'o parse_sdk \<Rightarrow> 'o hook \<Rightarrow> 'o middleware" where
  "hook_handler sdk handler c0 =
     (let c = enter SHandler c0 in (run_actions sdk (handler c) c, False))"

text \<open>
  What a function handler does: return a promise that is fulfilled, rejected or never
  settled, or throw before returning one.
\<close>

datatype outcome = Resolves jsval | Rejects jsval | Pending | Throws jsval

type_synonym 'o cloud_function = "'o ctx \<Rightarrow> outcome"

text \<open>
  The last middleware of a function route:
  \<open>handler(req).then(r => res.success(r)).catch(e => res.error(e))\<close>. An exception
  of the \<open>then\<close> callback reaches the \<open>catch\<close> callback; an exception of the \<open>catch\<close>
  callback is left unhandled.
\<close>

definition then_catch :: "'o parse_sdk \<Rightarrow> outcome \<Rightarrow> 'o ctx \<Rightarrow> 'o ctx" where
  "then_catch sdk result c =
     (case result of
        Resolves response \<Rightarrow>
          (let c' = call_res sdk (res_success c) response c in
           case thrown c' of
             None \<Rightarrow> c'
           | Some e \<Rightarrow> call_res sdk (res_error c') e (c'\<lparr>thrown := None\<rparr>))
      | Rejects e \<Rightarrow> call_res sdk (res_error c) e c
      | Pending \<Rightarrow> c
      | Throws e \<Rightarrow> throw e c)"

definition function_handler :: "'o parse_sdk \<Rightarrow> 'o cloud_function \<Rightarrow> 'o middleware" where
  "function_handler sdk handler c0 =
     (let c = enter SHandler c0 in (then_catch sdk (handler c) c, False))"

section \<open>The application\<close>

text \<open>
  The Express application is its stack of layers, in the order they were added:
  \<open>app.use(m)\<close> adds a middleware that every request passes, \<open>app.post(path, ms)\<close> a
  route that runs its chain for a POST request to that path. Paths are compared as
  strings. \<open>Routes\<close> is the registration table.
\<close>

datatype kind = BeforeSave | AfterSave | BeforeDelete | AfterDelete | Function

datatype 'o layer = Use "'o middleware" | Post string "'o middleware list"

record 'o app =
  stack :: "'o layer list"
  Routes :: "kind \<Rightarrow> jsval list"

fun run_chain :: "'o middleware list \<Rightarrow> 'o ctx \<Rightarrow> 'o ctx \<times> bool" where
  "run_chain [] c = (c, True)"
| "run_chain (m # ms) c =
     (case m c of (c', nxt) \<Rightarrow> if nxt then run_chain ms c' else (c', False))"

fun run_stack :: "'o layer list \<Rightarrow> 'o ctx \<Rightarrow> 'o ctx" where
  "run_stack [] c = c"
| "run_stack (Use m # ls) c =
     (case m c of (c', nxt) \<Rightarrow> if nxt then run_stack ls c' else c')"
| "run_stack (Post p ms # ls) c =
     (if req_method c = POST \<and> req_path c = p
      then (case run_chain ms c of (c', nxt) \<Rightarrow> if nxt then run_stack ls c' else c')
      else run_stack ls c)"

text \<open>The application as the module creates it, with \<open>webhookKey\<close> read from the environment.\<close>

definition express_app :: "string option \<Rightarrow> 'o app" where
  "express_app webhookKey =
     \<lparr> stack = [Use (validateWebhookRequest webhookKey), Use jsonParser],
       Routes = (\<lambda>k. []) \<rparr>"

definition app_post :: "string \<Rightarrow> 'o middleware list \<Rightarrow> 'o app \<Rightarrow> 'o app" where
  "app_post p ms a = a\<lparr>stack := stack a @ [Post p ms]\<rparr>"

definition push :: "kind \<Rightarrow> jsval \<Rightarrow> 'o app \<Rightarrow> 'o app" where
  "push k v a = a\<lparr>Routes := (Routes a)(k := Routes a k @ [v])\<rparr>"

definition beforeSave_chain :: "'o parse_sdk \<Rightarrow> jsval \<Rightarrow> 'o hook \<Rightarrow> 'o middleware list" where
  "beforeSave_chain sdk className handler =
     [entryLogger className ''beforeSave'',
      updateRequestInstallationId,
      addParseResponseMethods,
      inflateParseObject sdk,
      inflateParseUser sdk,
      beforeSaveResponseMojo,
      hook_handler sdk handler]"

definition afterSave_chain :: "'o parse_sdk \<Rightarrow> jsval \<Rightarrow> 'o hook \<Rightarrow> 'o middleware list" where
  "afterSave_chain sdk className handler =
     [entryLogger className ''afterSave'',
      updateRequestInstallationId,
      addParseResponseMethods,
      inflateParseObject sdk,
      inflateParseUser sdk,
      emptyResponse,
      hook_handler sdk handler]"

definition beforeDelete_chain :: "'o parse_sdk \<Rightarrow> jsval \<Rightarrow> 'o hook \<Rightarrow> 'o middleware list" where
  "beforeDelete_chain sdk className handler =
     [entryLogger className ''beforeDelete'',
      updateRequestInstallationId,
      addParseResponseMethods,
      inflateParseObject sdk,
      inflateParseUser sdk,
      hook_handler sdk handler]"

definition afterDelete_chain :: "'o parse_sdk \<Rightarrow> jsval \<Rightarrow> 'o hook \<Rightarrow> 'o middleware list" where
  "afterDelete_chain sdk className handler =
     [entryLogger className ''afterDelete'',
      updateRequestInstallationId,
      addParseResponseMethods,
      inflateParseObject sdk,
      inflateParseUser sdk,
      emptyResponse,
      hook_handler sdk handler]"

definition function_chain ::
  "'o parse_sdk \<Rightarrow> jsval \<Rightarrow> 'o cloud_function \<Rightarrow> 'o middleware list" where
  "function_chain sdk functionName handler =
     [entryLogger functionName ''function'',
      updateRequestInstallationId,
      updateRequestFunctionParams,
      addParseResponseMethods,
      encodeSuccessResponseObject,
      inflateParseUser sdk,
      function_handler sdk handler]"

definition beforeSave :: "'o parse_sdk \<Rightarrow> jsval \<Rightarrow> 'o hook \<Rightarrow> 'o app \<Rightarrow> 'o app" where
  "beforeSave sdk className handler a =
     push BeforeSave className
       (app_post (''/beforeSave_'' @ to_string className)
          (beforeSave_chain sdk className handler) a)"

definition afterSave :: "'o parse_sdk \<Rightarrow> jsval \<Rightarrow> 'o hook \<Rightarrow> 'o app \<Rightarrow> 'o app" where
  "afterSave sdk className handler a =
     push AfterSave className
       (app_post (''/afterSave_'' @ to_string className)
          (afterSave_chain sdk className handler) a)"

definition beforeDelete :: "'o parse_sdk \<Rightarrow> jsval \<Rightarrow> 'o hook \<Rightarrow> 'o app \<Rightarrow> 'o app" where
  "beforeDelete sdk className handler a =
     push BeforeDelete className
       (app_post (''/beforeDelete_'' @ to_string className)
          (beforeDelete_chain sdk className handler) a)"

definition afterDelete :: "'o parse_sdk \<Rightarrow> jsval \<Rightarrow> 'o hook \<Rightarrow> 'o app \<Rightarrow> 'o app" where
  "afterDelete sdk className handler a =
     push AfterDelete className
       (app_post (''/afterDelete_'' @ to_string className)
          (afterDelete_chain sdk className handler) a)"

text \<open>The source's \<open>define\<close>.\<close>

definition define_function ::
  "'o parse_sdk \<Rightarrow> jsval \<Rightarrow> 'o cloud_function \<Rightarrow> 'o app \<Rightarrow> 'o app" where
  "define_function sdk functionName handler a =
     push Function functionName
       (app_post (''/function_'' @ to_string functionName)
          (function_chain sdk functionName handler) a)"

text \<open>
  \<open>inflateObjectsToClassNames\<close>: the wrapper reads \<open>objectOrClassName.className\<close>
  unless the value is \<open>null\<close>; the read throws on \<open>undefined\<close>.
\<close>

definition inflateObjectsToClassNames ::
  "(jsval \<Rightarrow> 'h \<Rightarrow> 'o app \<Rightarrow> 'o app) \<Rightarrow> jsval \<Rightarrow> 'h \<Rightarrow> 'o app \<Rightarrow> jsval + 'o app" where
  "inflateObjectsToClassNames methodToWrap objectOrClassName handler a =
     (if objectOrClassName = JNull then Inr (methodToWrap objectOrClassName handler a)
      else
        (case member objectOrClassName ''className'' of
           Inl e \<Rightarrow> Inl e
         | Inr cn \<Rightarrow>
             if \<not> truthy cn then Inr (methodToWrap objectOrClassName handler a)
             else Inr (methodToWrap cn handler a)))"

text \<open>
  The registration calls of \<open>Parse.Cloud\<close>, with the identifier and handler a caller
  passes. The four hook registrations go through \<open>inflateObjectsToClassNames\<close>;
  \<open>Parse.Cloud.define\<close> is \<open>define\<close> itself.
\<close>

datatype 'o registration =
    CloudBeforeSave jsval "'o hook"
  | CloudAfterSave jsval "'o hook"
  | CloudBeforeDelete jsval "'o hook"
  | CloudAfterDelete jsval "'o hook"
  | CloudDefine jsval "'o cloud_function"

fun register :: "'o parse_sdk \<Rightarrow> 'o registration \<Rightarrow> 'o app \<Rightarrow> jsval + 'o app" where
  "register sdk (CloudBeforeSave v h) a = inflateObjectsToClassNames (beforeSave sdk) v h a"
| "register sdk (CloudAfterSave v h) a = inflateObjectsToClassNames (afterSave sdk) v h a"
| "register sdk (CloudBeforeDelete v h) a = inflateObjectsToClassNames (beforeDelete sdk) v h a"
| "register sdk (CloudAfterDelete v h) a = inflateObjectsToClassNames (afterDelete sdk) v h a"
| "register sdk (CloudDefine v h) a = Inr (define_function sdk v h a)"

text \<open>
  The application after a start-up script has made the given calls in order. A call
  that throws leaves the application as it was; the script is taken to catch the
  exception and go on.
\<close>

fun install :: "'o parse_sdk \<Rightarrow> 'o registration list \<Rightarrow> 'o app \<Rightarrow> 'o app" where
  "install sdk [] a = a"
| "install sdk (r # rs) a =
     (case register sdk r a of
        Inl e \<Rightarrow> install sdk rs a
      | Inr a' \<Rightarrow> install sdk rs a')"

text \<open>Serving one request: a fresh request state passes down the stack.\<close>

definition handle_request ::
  "'o app \<Rightarrow> http_method \<Rightarrow> string \<Rightarrow> string option \<Rightarrow> jsval \<Rightarrow> 'o ctx" where
  "handle_request a m p h b = run_stack (stack a) (incoming m p h b)"

section \<open>Notions used to state the properties\<close>

text \<open>The spec's reading of the default, \<open>value ?? true\<close>: only \<open>undefined\<close> and \<open>null\<close> are replaced.\<close>

definition nullish_or_true :: "jsval \<Rightarrow> jsval" where
  "nullish_or_true v = (if v = JUndefined \<or> v = JNull then JBool True else v)"

text \<open>The spec's envelope invariant: exactly one of the keys \<open>success\<close> and \<open>error\<close> is present.\<close>

fun has_key :: "string \<Rightarrow> jsval \<Rightarrow> bool" where
  "has_key k (JObj fs) = (k \<in> set (map fst fs))"
| "has_key k v = False"

definition exactly_one_key :: "jsval \<Rightarrow> bool" where
  "exactly_one_key b = (has_key ''success'' b \<noteq> has_key ''error'' b)"

text \<open>
  The spec's reading of object inflation: the update branch is taken when the body
  contains both keys.
\<close>

definition spec_inflated_object :: "'o parse_sdk \<Rightarrow> jsval \<Rightarrow> jsval + 'o" where
  "spec_inflated_object sdk body =
     (if has_key ''original'' body \<and> has_key ''update'' body then
        (case member body ''original'' of
           Inl e \<Rightarrow> Inl e
         | Inr original \<Rightarrow>
             (case member body ''update'' of
                Inl e \<Rightarrow> Inl e
              | Inr update \<Rightarrow> inflate_from_update sdk original update))
      else inflate_from_object sdk body)"

text \<open>Whether user inflation goes through for a request body.\<close>

definition user_inflates :: "'o parse_sdk \<Rightarrow> jsval \<Rightarrow> bool" where
  "user_inflates sdk body =
     (case member body ''user'' of
        Inl e \<Rightarrow> False
      | Inr user \<Rightarrow>
          if truthy user
          then (case fromJSON sdk (default_class_name user) of Inl e \<Rightarrow> False | Inr u \<Rightarrow> True)
          else True)"

text \<open>The route that serves a path: the first one bound to it.\<close>

fun first_route :: "string \<Rightarrow> 'o layer list \<Rightarrow> 'o middleware list option" where
  "first_route p [] = None"
| "first_route p (Use m # ls) = first_route p ls"
| "first_route p (Post q ms # ls) = (if p = q then Some ms else first_route p ls)"

fun is_route :: "'o layer \<Rightarrow> bool" where
  "is_route (Use m) = False"
| "is_route (Post p ms) = True"

fun layer_paths :: "'o layer list \<Rightarrow> string list" where
  "layer_paths [] = []"
| "layer_paths (Use m # ls) = layer_paths ls"
| "layer_paths (Post p ms # ls) = p # layer_paths ls"

text \<open>The request state once the two global middleware have let a request pass.\<close>

definition admitted :: "http_method \<Rightarrow> string \<Rightarrow> string option \<Rightarrow> jsval \<Rightarrow> 'o ctx" where
  "admitted m p h b =
     (incoming m p h b)\<lparr>req_body := b, trace := [SValidateWebhookRequest, SJsonParser]\<rparr>"

text \<open>
  The request state in which the last middleware of a chain, the handler, is entered
  once the steps before it have passed the request on.
\<close>

definition handler_entry :: "'o middleware list \<Rightarrow> 'o ctx \<Rightarrow> 'o ctx" where
  "handler_entry ms c = enter SHandler (fst (run_chain (butlast ms) c))"

text \<open>The five steps that the chains of the four hook kinds start with.\<close>

definition hook_prefix :: "'o parse_sdk \<Rightarrow> jsval \<Rightarrow> string \<Rightarrow> 'o middleware list" where
  "hook_prefix sdk className actionType =
     [entryLogger className actionType, updateRequestInstallationId, addParseResponseMethods,
      inflateParseObject sdk, inflateParseUser sdk]"

text \<open>
  The shape of a transmitted response: status 200, and a body that either has exactly
  one of the two envelope keys or is the empty object sent by \<open>emptyResponse\<close>.
\<close>

definition envelope_or_empty :: "'o ctx \<Rightarrow> bool" where
  "envelope_or_empty c =
     (case sent c of
        None \<Rightarrow> True
      | Some (code, b) \<Rightarrow>
          code = 200 \<and> (exactly_one_key b \<or> (b = JObj [] \<and> SEmptyResponse \<in> set (trace c))))"

definition keeps_envelope :: "'o middleware \<Rightarrow> bool" where
  "keeps_envelope m = (\<forall>c. envelope_or_empty c \<longrightarrow> envelope_or_empty (fst (m c)))"

fun layer_keeps_envelope :: "'o layer \<Rightarrow> bool" where
  "layer_keeps_envelope (Use m) = keeps_envelope m"
| "layer_keeps_envelope (Post p ms) = list_all keeps_envelope ms"

text \<open>
  A stand-in for the SDK, used to evaluate the model at concrete inputs: a domain
  object is the property list of its serialized form, \<open>set\<close> assigns the given
  attributes one by one, and encoding and decoding leave a value as it is.
\<close>

definition plain_sdk :: "(string \<times> jsval) list parse_sdk" where
  "plain_sdk =
     \<lparr> fromJSON = (\<lambda>j. case j of JObj fs \<Rightarrow> Inr fs | _ \<Rightarrow> Inl type_error),
       decode = Inr,
       set_attrs = (\<lambda>ob attrs. case attrs of
                       JObj fs \<Rightarrow> Inr (fold (\<lambda>(k, v). assign_prop k v) fs ob)
                     | _ \<Rightarrow> Inr ob),
       toJSON = (\<lambda>ob. ob),
       encode = Inr \<rparr>"

text \<open>
  A second stand-in, shaped after the Parse SDK: a domain object is its class name
  with its attributes; \<open>fromJSON\<close> requires a \<open>className\<close> string and keeps the other
  properties as attributes; \<open>toJSON\<close> returns the attributes, without the class name.
\<close>

definition class_sdk :: "(string \<times> (string \<times> jsval) list) parse_sdk" where
  "class_sdk =
     \<lparr> fromJSON = (\<lambda>j. case j of
                       JObj fs \<Rightarrow>
                         (case map_of fs ''className'' of
                            Some (JStr cn) \<Rightarrow> Inr (cn, filter (\<lambda>kv. fst kv \<noteq> ''className'') fs)
                          | _ \<Rightarrow> Inl (JError ''Cannot create an object without a className''))
                     | _ \<Rightarrow> Inl type_error),
       decode = Inr,
       set_attrs = (\<lambda>ob attrs. case attrs of
                       JObj fs \<Rightarrow> Inr (fst ob, fold (\<lambda>(k, v). assign_prop k v) fs (snd ob))
                     | _ \<Rightarrow> Inr ob),
       toJSON = snd,
       encode = Inr \<rparr>"

text \<open>Sample handlers for concrete inputs.\<close>

definition accept_hook :: "'o hook" where
  "accept_hook c = [CallSuccess JUndefined]"

definition null_function :: "'o cloud_function" where
  "null_function c = Resolves JNull"

definition refusing_function :: "'o cloud_function" where
  "refusing_function c = Rejects (JBool False)"

definition greeting_function :: "'o cloud_function" where
  "greeting_function c = Resolves (JStr ''hello'')"

definition retitling_hook :: "(string \<times> jsval) list hook" where
  "retitling_hook c = [Mutate (assign_prop ''title'' (JStr ''b'')), CallSuccess (JStr ''ignored'')]"

section \<open>The response envelope\<close>

lemma sent_status_send:
  "sent c = None \<Longrightarrow> status_send code b c = c\<lparr>sent := Some (code, b)\<rparr>"
  by (simp add: status_send_def)

lemma sent_successResponse:
  "sent c = None \<Longrightarrow> successResponse d c = c\<lparr>sent := Some (200, JObj [(''success'', or_true d)])\<rparr>"
  by (simp add: successResponse_def sent_status_send)

lemma sent_errorResponse:
  "sent c = None \<Longrightarrow> errorResponse d c = c\<lparr>sent := Some (200, JObj [(''error'', or_true d)])\<rparr>"
  by (simp add: errorResponse_def sent_status_send)

text \<open>
  C5, as stated, fails: the success sender called with the payload \<open>false\<close> sends
  \<open>{success: true}\<close>, where \<open>false ?? true\<close> is \<open>false\<close>.
\<close>

theorem C5_nullish_default_counterexample:
  "sent (successResponse (JBool False) (incoming POST ''/function_f'' None (JObj []) :: unit ctx))
     \<noteq> Some (200, JObj [(''success'', nullish_or_true (JBool False))])"
  by (simp add: successResponse_def status_send_def incoming_def or_true_def nullish_or_true_def)

text \<open>
  C5, amended: on a response that has not been sent yet, the success sender sends status
  200 with body \<open>{success: v || true}\<close> and the error sender status 200 with body
  \<open>{error: v || true}\<close>: a truthy payload is sent as it is, and the literal \<open>true\<close>
  replaces every falsy payload (\<open>undefined\<close>, \<open>null\<close>, \<open>false\<close>, \<open>0\<close>, the empty
  string), so it is used exactly when the payload is falsy.
\<close>

theorem C5_senders_default_on_falsy:
  assumes "sent c = None"
  shows "sent (successResponse v c)
           = Some (200, JObj [(''success'', if truthy v then v else JBool True)])
       \<and> sent (errorResponse v c)
           = Some (200, JObj [(''error'', if truthy v then v else JBool True)])
       \<and> (or_true v = JBool True \<and> v \<noteq> JBool True \<longleftrightarrow> \<not> truthy v)"
  using assms
  by (cases v) (auto simp: sent_successResponse sent_errorResponse or_true_def)

theorem C5_senders_default_on_falsy_witness:
  "sent (incoming POST ''/function_f'' None (JObj []) :: unit ctx) = None
   \<and> sent (successResponse (JStr ''ok'') (incoming POST ''/function_f'' None (JObj []) :: unit ctx))
       = Some (200, JObj [(''success'', JStr ''ok'')])
   \<and> sent (errorResponse (JNum 0) (incoming POST ''/function_f'' None (JObj []) :: unit ctx))
       = Some (200, JObj [(''error'', JBool True)])"
proof -
  have fresh: "sent (incoming POST ''/function_f'' None (JObj []) :: unit ctx) = None"
    by (simp add: incoming_def)
  show ?thesis
    using fresh C5_senders_default_on_falsy [OF fresh, of "JStr ''ok''"]
      C5_senders_default_on_falsy [OF fresh, of "JNum 0"]
    by simp
qed

section \<open>Registration\<close>

lemma stack_register_routes:
  assumes "register sdk r a = Inr a'"
  shows "\<exists>ls. stack a' = stack a @ ls \<and> list_all is_route ls"
  using assms
  by (cases r)
     (auto simp: inflateObjectsToClassNames_def beforeSave_def afterSave_def beforeDelete_def
        afterDelete_def define_function_def push_def app_post_def
        split: if_splits sum.splits)

lemma stack_install_routes:
  "\<exists>ls. stack (install sdk rs a) = stack a @ ls \<and> list_all is_route ls"
proof (induction rs arbitrary: a)
  case Nil
  then show ?case by simp
next
  case (Cons r rs)
  show ?case
  proof (cases "register sdk r a")
    case (Inl e)
    then show ?thesis using Cons.IH [of a] by simp
  next
    case (Inr a')
    obtain ls where 1: "stack a' = stack a @ ls" "list_all is_route ls"
      using stack_register_routes [OF Inr] by blast
    obtain ls' where 2: "stack (install sdk rs a') = stack a' @ ls'" "list_all is_route ls'"
      using Cons.IH [of a'] by blast
    show ?thesis using Inr 1 2 by simp
  qed
qed

text \<open>
  C9: each of the five registration functions appends the identifier to the table entry
  of its kind, leaves the other entries as they were, and appends to the application a
  POST route whose path is the kind's prefix, an underscore and the identifier (with
  the leading slash of an Express path), bound to the chain of that kind.
\<close>

theorem C9_registration_appends_entry_and_route:
  "Routes (beforeSave sdk I h a) = (Routes a)(BeforeSave := Routes a BeforeSave @ [I])
   \<and> stack (beforeSave sdk I h a)
       = stack a @ [Post (''/beforeSave_'' @ to_string I) (beforeSave_chain sdk I h)]
   \<and> Routes (afterSave sdk I h a) = (Routes a)(AfterSave := Routes a AfterSave @ [I])
   \<and> stack (afterSave sdk I h a)
       = stack a @ [Post (''/afterSave_'' @ to_string I) (afterSave_chain sdk I h)]
   \<and> Routes (beforeDelete sdk I h a) = (Routes a)(BeforeDelete := Routes a BeforeDelete @ [I])
   \<and> stack (beforeDelete sdk I h a)
       = stack a @ [Post (''/beforeDelete_'' @ to_string I) (beforeDelete_chain sdk I h)]
   \<and> Routes (afterDelete sdk I h a) = (Routes a)(AfterDelete := Routes a AfterDelete @ [I])
   \<and> stack (afterDelete sdk I h a)
       = stack a @ [Post (''/afterDelete_'' @ to_string I) (afterDelete_chain sdk I h)]
   \<and> Routes (define_function sdk I f a) = (Routes a)(Function := Routes a Function @ [I])
   \<and> stack (define_function sdk I f a)
       = stack a @ [Post (''/function_'' @ to_string I) (function_chain sdk I f)]"
  by (simp add: beforeSave_def afterSave_def beforeDelete_def afterDelete_def
      define_function_def push_def app_post_def)

theorem C9_registration_appends_entry_and_route_witness:
  "Routes (beforeSave plain_sdk (JStr ''Post'') accept_hook
            (express_app (Some ''secret''))) BeforeSave = [JStr ''Post'']
   \<and> stack (define_function plain_sdk (JStr ''sendEmail'') null_function
              (express_app (Some ''secret'')))
       = [Use (validateWebhookRequest (Some ''secret'')), Use jsonParser,
          Post ''/function_sendEmail''
            (function_chain plain_sdk (JStr ''sendEmail'') null_function)]"
  using C9_registration_appends_entry_and_route
    [of plain_sdk "JStr ''Post''" accept_hook "express_app (Some ''secret'')"
        null_function]
    C9_registration_appends_entry_and_route
    [of plain_sdk "JStr ''sendEmail''" accept_hook
        "express_app (Some ''secret'')" null_function]
  by (simp add: express_app_def)

section \<open>Webhook authentication\<close>

lemma run_stack_unauthorized:
  assumes "req_header c \<noteq> webhookKey" and "sent c = None"
  shows "run_stack (Use (validateWebhookRequest webhookKey) # ls) c
           = (enter SValidateWebhookRequest c)
               \<lparr>sent := Some (200, JObj [(''error'', JStr ''Unauthorized Request.'')])\<rparr>"
  using assms
  by (simp add: validateWebhookRequest_def Let_def enter_def sent_errorResponse or_true_def)

text \<open>
  C1: whatever registrations were made, a request whose webhook-key header differs from
  the configured secret (an absent header is \<open>None\<close>) is answered with status 200 and
  body \<open>{error: "Unauthorized Request."}\<close>; the authentication middleware is the only
  middleware entered, so neither the body parser, nor any step of a route, nor a handler
  runs.
\<close>

theorem C1_unauthorized_request_rejected:
  assumes "header \<noteq> webhookKey"
  shows "sent (handle_request (install sdk regs (express_app webhookKey)) m p header b)
           = Some (200, JObj [(''error'', JStr ''Unauthorized Request.'')])
       \<and> trace (handle_request (install sdk regs (express_app webhookKey)) m p header b)
           = [SValidateWebhookRequest]
       \<and> SHandler \<notin> set (trace (handle_request (install sdk regs (express_app webhookKey)) m p header b))"
proof -
  obtain ls where "stack (install sdk regs (express_app webhookKey))
      = stack (express_app webhookKey) @ ls"
    using stack_install_routes by blast
  then have st: "stack (install sdk regs (express_app webhookKey))
      = Use (validateWebhookRequest webhookKey) # Use jsonParser # ls"
    by (simp add: express_app_def)
  have h: "req_header (incoming m p header b :: 'a ctx) \<noteq> webhookKey"
    using assms by (simp add: incoming_def)
  have s: "sent (incoming m p header b :: 'a ctx) = None"
    by (simp add: incoming_def)
  show ?thesis
    unfolding handle_request_def st run_stack_unauthorized [OF h s]
    by (simp add: enter_def incoming_def)
qed

theorem C1_unauthorized_request_rejected_witness:
  "Some ''wrong'' \<noteq> Some ''secret''
   \<and> sent (handle_request
        (install plain_sdk [CloudBeforeSave (JStr ''Post'') accept_hook]
           (express_app (Some ''secret'')))
        POST ''/beforeSave_Post'' (Some ''wrong'') (JObj [(''object'', JObj [])]))
       = Some (200, JObj [(''error'', JStr ''Unauthorized Request.'')])"
proof -
  have ne: "Some ''wrong'' \<noteq> Some ''secret''" by simp
  show ?thesis
    using ne C1_unauthorized_request_rejected [OF ne, of plain_sdk
        "[CloudBeforeSave (JStr ''Post'') accept_hook]"
        POST "''/beforeSave_Post''" "JObj [(''object'', JObj [])]"]
    by simp
qed

section \<open>Dispatch\<close>

lemma admitted_fields [simp]:
  "req_method (admitted m p h b) = m" "req_path (admitted m p h b) = p"
  "req_body (admitted m p h b) = b" "sent (admitted m p h b) = None"
  "thrown (admitted m p h b) = None" "req_object (admitted m p h b) = None"
  "res_success (admitted m p h b) = NoMethod" "res_error (admitted m p h b) = NoMethod"
  "trace (admitted m p h b) = [SValidateWebhookRequest, SJsonParser]"
  by (simp_all add: admitted_def incoming_def)

lemma run_stack_first_route:
  assumes "list_all is_route ls" and "req_method c = POST"
    and "first_route (req_path c) ls = Some ms" and "snd (run_chain ms c) = False"
  shows "run_stack ls c = fst (run_chain ms c)"
  using assms
proof (induction ls)
  case Nil
  then show ?case by simp
next
  case (Cons l ls)
  then show ?case
    by (cases l) (auto split: if_splits prod.splits)
qed

lemma run_global_authorized:
  "run_stack (Use (validateWebhookRequest key) # Use jsonParser # ls) (incoming m p key b)
     = run_stack ls (admitted m p key b)"
  by (simp add: validateWebhookRequest_def jsonParser_def Let_def enter_def incoming_def
      admitted_def)

lemma handle_request_route:
  assumes "first_route p (stack (install sdk regs (express_app key))) = Some ms"
    and "snd (run_chain ms (admitted POST p key b)) = False"
  shows "handle_request (install sdk regs (express_app key)) POST p key b
           = fst (run_chain ms (admitted POST p key b))"
proof -
  obtain ls where ls: "stack (install sdk regs (express_app key))
      = stack (express_app key) @ ls" "list_all is_route ls"
    using stack_install_routes by blast
  then have st: "stack (install sdk regs (express_app key))
      = Use (validateWebhookRequest key) # Use jsonParser # ls"
    by (simp add: express_app_def)
  have fr: "first_route (req_path (admitted POST p key b :: 'a ctx)) ls = Some ms"
    using assms(1) st by simp
  show ?thesis
    unfolding handle_request_def st run_global_authorized
    by (rule run_stack_first_route [OF ls(2) _ fr assms(2)]) simp
qed

lemma run_chain_append:
  "run_chain (xs @ ys) c =
     (case run_chain xs c of (c', nxt) \<Rightarrow> if nxt then run_chain ys c' else (c', False))"
  by (induction xs arbitrary: c) (auto split: prod.splits)

lemma handler_entry_snoc:
  "handler_entry (ms @ [m]) c = enter SHandler (fst (run_chain ms c))"
  by (simp add: handler_entry_def)

lemma run_chain_hook_handler:
  assumes "run_chain ms c = (c', True)"
  shows "run_chain (ms @ [hook_handler sdk h]) c
           = (run_actions sdk (h (handler_entry (ms @ [hook_handler sdk h]) c))
                (handler_entry (ms @ [hook_handler sdk h]) c), False)"
  using assms
  by (simp add: run_chain_append handler_entry_snoc hook_handler_def Let_def)

lemma run_chain_function_handler:
  assumes "run_chain ms c = (c', True)"
  shows "run_chain (ms @ [function_handler sdk h]) c
           = (then_catch sdk (h (handler_entry (ms @ [function_handler sdk h]) c))
                (handler_entry (ms @ [function_handler sdk h]) c), False)"
  using assms
  by (simp add: run_chain_append handler_entry_snoc function_handler_def Let_def)

section \<open>A response, once sent, stays\<close>

lemma status_send_keeps_sent:
  "sent c = Some r \<Longrightarrow> sent (status_send code b c) = Some r"
  by (simp add: status_send_def throw_def)

lemma call_res_keeps_sent:
  "sent c = Some r \<Longrightarrow> sent (call_res sdk f d c) = Some r"
  by (induction f arbitrary: d)
     (auto simp: successResponse_def errorResponse_def status_send_keeps_sent throw_def
        split: sum.splits option.splits)

lemma do_action_keeps_sent:
  "sent c = Some r \<Longrightarrow> sent (do_action sdk a c) = Some r"
  by (cases a) (simp_all add: call_res_keeps_sent throw_def)

lemma run_actions_keeps_sent:
  "sent c = Some r \<Longrightarrow> sent (run_actions sdk as c) = Some r"
  by (induction as arbitrary: c) (auto simp: do_action_keeps_sent split: option.splits)

lemma call_res_trace: "trace (call_res sdk f d c) = trace c"
  by (induction f arbitrary: d)
     (auto simp: successResponse_def errorResponse_def status_send_def throw_def
        split: sum.splits option.splits)

lemma do_action_trace: "trace (do_action sdk a c) = trace c"
  by (cases a) (simp_all add: call_res_trace throw_def)

lemma run_actions_trace: "trace (run_actions sdk as c) = trace c"
  by (induction as arbitrary: c) (auto simp: do_action_trace split: option.splits)

lemma run_actions_mutations:
  assumes "thrown c = None"
  shows "run_actions sdk (map Mutate fs @ as) c
           = run_actions sdk as
               (c\<lparr>req_object := map_option (fold (\<lambda>f ob. f ob) fs) (req_object c)\<rparr>)"
  using assms
proof (induction fs arbitrary: c)
  case Nil
  then show ?case by (simp add: option.map_ident)
next
  case (Cons f fs)
  then show ?case by (simp add: option.map_comp comp_def)
qed

section \<open>The steps before a hook handler\<close>

lemma member_defined:
  assumes "b \<noteq> JUndefined" and "b \<noteq> JNull"
  shows "\<exists>v. member b k = Inr v"
  using assms by (cases b) simp_all

lemma member_set_member_other:
  assumes "k \<noteq> k'"
  shows "member (set_member b k x) k' = member b k'"
proof (cases b)
  case (JObj fs)
  have "map_of (assign_prop k x fs) k' = map_of fs k'"
    using assms by (induction fs) auto
  then show ?thesis using JObj by simp
qed simp_all

lemma inflated_object_defined:
  assumes "inflated_object sdk b = Inr ob"
  shows "b \<noteq> JUndefined \<and> b \<noteq> JNull"
  using assms by (cases b) (simp_all add: inflated_object_def)

lemma user_inflates_defined:
  assumes "user_inflates sdk b"
  shows "b \<noteq> JUndefined \<and> b \<noteq> JNull"
  using assms by (cases b) (simp_all add: user_inflates_def)

lemma inflateParseUser_passes:
  assumes "user_inflates sdk (req_body c)"
  shows "\<exists>c'. inflateParseUser sdk c = (c', True) \<and> sent c' = sent c \<and> thrown c' = thrown c
           \<and> res_success c' = res_success c \<and> res_error c' = res_error c
           \<and> req_object c' = req_object c
           \<and> trace c' = trace c @ [SInflateParseUser]"
proof -
  have d: "req_body c \<noteq> JUndefined" "req_body c \<noteq> JNull"
    using user_inflates_defined [OF assms] by simp_all
  obtain user where u: "member (req_body c) ''user'' = Inr user"
    using member_defined [OF d] by blast
  obtain ms where m: "member (req_body c) ''master'' = Inr ms"
    using member_defined [OF d] by blast
  show ?thesis
  proof (cases "truthy user")
    case False
    then show ?thesis
      using u m by (simp add: inflateParseUser_def Let_def enter_def copy_master_def)
  next
    case True
    then obtain x where x: "fromJSON sdk (default_class_name user) = Inr x"
      using assms u by (auto simp: user_inflates_def split: sum.splits)
    have m': "member (set_member (req_body c) ''user'' (default_class_name user)) ''master''
        = Inr ms"
      using m by (simp add: member_set_member_other)
    show ?thesis
      using True u x m'
      by (simp add: inflateParseUser_def Let_def enter_def copy_master_def)
  qed
qed

lemma hook_prefix_passes:
  assumes "inflated_object sdk b = Inr ob" and "user_inflates sdk b"
  shows "\<exists>c1. run_chain (hook_prefix sdk cn at) (admitted POST p key b) = (c1, True)
           \<and> sent c1 = None \<and> thrown c1 = None
           \<and> res_success c1 = ParseSuccess \<and> res_error c1 = ParseError
           \<and> req_object c1 = Some ob
           \<and> trace c1 = [SValidateWebhookRequest, SJsonParser, SEntryLogger,
                 SUpdateRequestInstallationId, SAddParseResponseMethods, SInflateParseObject,
                 SInflateParseUser]"
proof -
  have d: "b \<noteq> JUndefined" "b \<noteq> JNull"
    using inflated_object_defined [OF assms(1)] by simp_all
  obtain i where i: "member b ''installationId'' = Inr i"
    using member_defined [OF d] by blast
  define c4 :: "'a ctx" where "c4 = (admitted POST p key b)
      \<lparr>req_installationId := i, res_success := ParseSuccess, res_error := ParseError,
       req_object := Some ob,
       trace := [SValidateWebhookRequest, SJsonParser, SEntryLogger,
                 SUpdateRequestInstallationId, SAddParseResponseMethods, SInflateParseObject]\<rparr>"
  have four: "run_chain [entryLogger cn at, updateRequestInstallationId, addParseResponseMethods,
      inflateParseObject sdk] (admitted POST p key b) = (c4, True)"
    using i assms(1)
    by (simp add: entryLogger_def updateRequestInstallationId_def addParseResponseMethods_def
        inflateParseObject_def Let_def enter_def c4_def)
  have "user_inflates sdk (req_body c4)"
    using assms(2) by (simp add: c4_def)
  then obtain c5 where c5: "inflateParseUser sdk c4 = (c5, True)" "sent c5 = sent c4"
      "thrown c5 = thrown c4" "res_success c5 = res_success c4" "res_error c5 = res_error c4"
      "req_object c5 = req_object c4" "trace c5 = trace c4 @ [SInflateParseUser]"
    using inflateParseUser_passes [of sdk c4] by blast
  have "hook_prefix sdk cn at = [entryLogger cn at, updateRequestInstallationId,
      addParseResponseMethods, inflateParseObject sdk] @ [inflateParseUser sdk]"
    by (simp add: hook_prefix_def)
  then have "run_chain (hook_prefix sdk cn at) (admitted POST p key b) = (c5, True)"
    using four c5(1) by (simp only: run_chain_append) simp
  then show ?thesis
    using c5 by (auto simp: c4_def)
qed

lemma chain_snoc:
  "afterSave_chain sdk cn h
     = (hook_prefix sdk cn ''afterSave'' @ [emptyResponse]) @ [hook_handler sdk h]"
  "afterDelete_chain sdk cn h
     = (hook_prefix sdk cn ''afterDelete'' @ [emptyResponse]) @ [hook_handler sdk h]"
  "beforeSave_chain sdk cn h
     = (hook_prefix sdk cn ''beforeSave'' @ [beforeSaveResponseMojo]) @ [hook_handler sdk h]"
  "beforeDelete_chain sdk cn h = hook_prefix sdk cn ''beforeDelete'' @ [hook_handler sdk h]"
  by (simp_all add: afterSave_chain_def afterDelete_chain_def beforeSave_chain_def
      beforeDelete_chain_def hook_prefix_def)

text \<open>Evaluating the whole pipeline at a concrete request.\<close>

lemmas pipeline_defs = handle_request_def express_app_def inflateObjectsToClassNames_def
  beforeSave_def afterSave_def beforeDelete_def afterDelete_def define_function_def
  push_def app_post_def beforeSave_chain_def afterSave_chain_def beforeDelete_chain_def
  afterDelete_chain_def function_chain_def validateWebhookRequest_def jsonParser_def
  entryLogger_def updateRequestInstallationId_def updateRequestFunctionParams_def
  addParseResponseMethods_def encodeSuccessResponseObject_def inflateParseObject_def
  inflateParseUser_def copy_master_def emptyResponse_def beforeSaveResponseMojo_def
  hook_handler_def function_handler_def then_catch_def inflated_object_def
  inflate_from_object_def inflate_from_update_def successResponse_def errorResponse_def
  status_send_def or_true_def throw_def enter_def incoming_def Let_def plain_sdk_def
  accept_hook_def null_function_def refusing_function_def greeting_function_def
  retitling_hook_def default_class_name_def

lemmas registration_defs = inflateObjectsToClassNames_def beforeSave_def afterSave_def
  beforeDelete_def afterDelete_def define_function_def push_def app_post_def express_app_def

section \<open>The shape of every response\<close>

lemma envelope_enter: "envelope_or_empty c \<Longrightarrow> envelope_or_empty (enter s c)"
  by (auto simp: envelope_or_empty_def enter_def split: option.splits)

lemma envelope_throw: "envelope_or_empty c \<Longrightarrow> envelope_or_empty (throw e c)"
  by (auto simp: envelope_or_empty_def throw_def split: option.splits)

lemma envelope_status_send:
  assumes "envelope_or_empty c"
    and "exactly_one_key b \<or> (b = JObj [] \<and> SEmptyResponse \<in> set (trace c))"
  shows "envelope_or_empty (status_send 200 b c)"
  using assms
  by (auto simp: envelope_or_empty_def status_send_def throw_def split: option.splits)

lemma envelope_successResponse:
  "envelope_or_empty c \<Longrightarrow> envelope_or_empty (successResponse d c)"
  unfolding successResponse_def
  by (rule envelope_status_send) (simp_all add: exactly_one_key_def)

lemma envelope_errorResponse:
  "envelope_or_empty c \<Longrightarrow> envelope_or_empty (errorResponse d c)"
  unfolding errorResponse_def
  by (rule envelope_status_send) (simp_all add: exactly_one_key_def)

lemma envelope_call_res:
  "envelope_or_empty c \<Longrightarrow> envelope_or_empty (call_res sdk f d c)"
  by (induction f arbitrary: d)
     (auto simp: envelope_successResponse envelope_errorResponse envelope_throw
        split: sum.splits option.splits)

lemma envelope_field_updates:
  "envelope_or_empty c \<Longrightarrow> envelope_or_empty (c\<lparr>req_object := x\<rparr>)"
  "envelope_or_empty c \<Longrightarrow> envelope_or_empty (c\<lparr>req_body := y\<rparr>)"
  "envelope_or_empty c \<Longrightarrow> envelope_or_empty (c\<lparr>req_user := u\<rparr>)"
  "envelope_or_empty c \<Longrightarrow> envelope_or_empty (c\<lparr>req_master := v\<rparr>)"
  "envelope_or_empty c \<Longrightarrow> envelope_or_empty (c\<lparr>req_params := v\<rparr>)"
  "envelope_or_empty c \<Longrightarrow> envelope_or_empty (c\<lparr>req_installationId := v\<rparr>)"
  "envelope_or_empty c \<Longrightarrow> envelope_or_empty (c\<lparr>res_success := f\<rparr>)"
  "envelope_or_empty c \<Longrightarrow> envelope_or_empty (c\<lparr>res_error := f\<rparr>)"
  "envelope_or_empty c \<Longrightarrow> envelope_or_empty (c\<lparr>thrown := t\<rparr>)"
  by (auto simp: envelope_or_empty_def split: option.splits)

lemma envelope_do_action:
  "envelope_or_empty c \<Longrightarrow> envelope_or_empty (do_action sdk a c)"
  by (cases a) (simp_all add: envelope_call_res envelope_throw envelope_field_updates)

lemma envelope_run_actions:
  "envelope_or_empty c \<Longrightarrow> envelope_or_empty (run_actions sdk as c)"
  by (induction as arbitrary: c) (auto simp: envelope_do_action split: option.splits)

lemmas envelope_intros = envelope_enter envelope_throw envelope_successResponse
  envelope_errorResponse envelope_call_res envelope_field_updates envelope_run_actions

lemma keeps_validateWebhookRequest: "keeps_envelope (validateWebhookRequest key)"
  by (simp add: keeps_envelope_def validateWebhookRequest_def Let_def envelope_intros)

lemma keeps_jsonParser: "keeps_envelope jsonParser"
  by (simp add: keeps_envelope_def jsonParser_def Let_def envelope_intros)

lemma keeps_entryLogger: "keeps_envelope (entryLogger cn at)"
  by (simp add: keeps_envelope_def entryLogger_def envelope_intros)

lemma keeps_updateRequestInstallationId: "keeps_envelope updateRequestInstallationId"
  by (auto simp: keeps_envelope_def updateRequestInstallationId_def Let_def envelope_intros
      split: sum.splits)

lemma keeps_updateRequestFunctionParams: "keeps_envelope updateRequestFunctionParams"
  by (auto simp: keeps_envelope_def updateRequestFunctionParams_def Let_def envelope_intros
      split: sum.splits)

lemma keeps_addParseResponseMethods: "keeps_envelope addParseResponseMethods"
  by (simp add: keeps_envelope_def addParseResponseMethods_def Let_def envelope_intros)

lemma keeps_encodeSuccessResponseObject: "keeps_envelope encodeSuccessResponseObject"
  by (simp add: keeps_envelope_def encodeSuccessResponseObject_def Let_def envelope_intros)

lemma keeps_beforeSaveResponseMojo: "keeps_envelope beforeSaveResponseMojo"
  by (simp add: keeps_envelope_def beforeSaveResponseMojo_def Let_def envelope_intros)

lemma keeps_inflateParseObject: "keeps_envelope (inflateParseObject sdk)"
  by (auto simp: keeps_envelope_def inflateParseObject_def Let_def envelope_intros
      split: sum.splits)

lemma envelope_copy_master:
  "envelope_or_empty c \<Longrightarrow> envelope_or_empty (fst (copy_master c))"
  by (auto simp: copy_master_def envelope_intros split: sum.splits)

lemma keeps_inflateParseUser: "keeps_envelope (inflateParseUser sdk)"
  by (auto simp: keeps_envelope_def inflateParseUser_def Let_def envelope_intros
      envelope_copy_master split: sum.splits)

lemma keeps_emptyResponse: "keeps_envelope emptyResponse"
proof -
  have "envelope_or_empty (status_send 200 (JObj []) (enter SEmptyResponse c))"
    if "envelope_or_empty c" for c :: "'a ctx"
    using that by (intro envelope_status_send envelope_enter) (simp_all add: enter_def)
  then show ?thesis
    by (auto simp: keeps_envelope_def emptyResponse_def Let_def split: option.splits)
qed

lemma keeps_hook_handler: "keeps_envelope (hook_handler sdk h)"
  by (simp add: keeps_envelope_def hook_handler_def Let_def envelope_intros)

lemma keeps_function_handler: "keeps_envelope (function_handler sdk h)"
  by (auto simp: keeps_envelope_def function_handler_def then_catch_def Let_def envelope_intros
      split: outcome.splits option.splits)

lemmas keeps_intros = keeps_validateWebhookRequest keeps_jsonParser keeps_entryLogger
  keeps_updateRequestInstallationId keeps_updateRequestFunctionParams
  keeps_addParseResponseMethods keeps_encodeSuccessResponseObject keeps_beforeSaveResponseMojo
  keeps_inflateParseObject keeps_inflateParseUser keeps_emptyResponse keeps_hook_handler
  keeps_function_handler

lemma envelope_run_chain:
  "list_all keeps_envelope ms \<Longrightarrow> envelope_or_empty c \<Longrightarrow> envelope_or_empty (fst (run_chain ms c))"
proof (induction ms arbitrary: c)
  case Nil
  then show ?case by simp
next
  case (Cons m ms)
  obtain c' nxt where mc: "m c = (c', nxt)" by (cases "m c")
  have "envelope_or_empty c'"
    using Cons.prems mc by (auto simp: keeps_envelope_def dest: spec [of _ c])
  then show ?case
    using Cons mc by simp
qed

lemma envelope_run_stack:
  "list_all layer_keeps_envelope ls \<Longrightarrow> envelope_or_empty c \<Longrightarrow> envelope_or_empty (run_stack ls c)"
proof (induction ls arbitrary: c)
  case Nil
  then show ?case by simp
next
  case (Cons l ls)
  show ?case
  proof (cases l)
    case (Use m)
    obtain c' nxt where mc: "m c = (c', nxt)" by (cases "m c")
    have "envelope_or_empty c'"
      using Cons.prems mc Use by (auto simp: keeps_envelope_def dest: spec [of _ c])
    then show ?thesis
      using Cons Use mc by simp
  next
    case (Post q ms)
    obtain c' nxt where mc: "run_chain ms c = (c', nxt)" by (cases "run_chain ms c")
    have "envelope_or_empty c'"
      using Cons.prems Post mc envelope_run_chain [of ms c] by simp
    then show ?thesis
      using Cons Post mc by simp
  qed
qed

lemma keeps_register:
  assumes "register sdk r a = Inr a'" and "list_all layer_keeps_envelope (stack a)"
  shows "list_all layer_keeps_envelope (stack a')"
  using assms
  by (cases r)
     (auto simp: inflateObjectsToClassNames_def beforeSave_def afterSave_def beforeDelete_def
        afterDelete_def define_function_def push_def app_post_def
        beforeSave_chain_def afterSave_chain_def beforeDelete_chain_def afterDelete_chain_def
        function_chain_def keeps_intros
        split: if_splits sum.splits)

lemma keeps_install:
  "list_all layer_keeps_envelope (stack a) \<Longrightarrow> list_all layer_keeps_envelope (stack (install sdk rs a))"
proof (induction rs arbitrary: a)
  case Nil
  then show ?case by simp
next
  case (Cons r rs)
  then show ?case
    by (cases "register sdk r a") (auto dest: keeps_register)
qed

lemma envelope_handle_request:
  "envelope_or_empty (handle_request (install sdk regs (express_app key)) m p h b)"
proof -
  have "list_all layer_keeps_envelope (stack (express_app key :: 'a app))"
    by (simp add: express_app_def keeps_intros)
  then have "list_all layer_keeps_envelope (stack (install sdk regs (express_app key)))"
    by (rule keeps_install)
  moreover have "envelope_or_empty (incoming m p h b :: 'a ctx)"
    by (simp add: envelope_or_empty_def incoming_def)
  ultimately show ?thesis
    unfolding handle_request_def by (rule envelope_run_stack)
qed

text \<open>
  C6, as stated, fails: an authorized request to an afterDelete route is answered with
  the body \<open>{}\<close>, which has neither key.
\<close>

theorem C6_empty_body_counterexample:
  "sent (handle_request
      (install plain_sdk [CloudAfterDelete (JStr ''Post'') accept_hook]
         (express_app (Some ''secret'')))
      POST ''/afterDelete_Post'' (Some ''secret'')
      (JObj [(''object'', JObj [(''className'', JStr ''Post'')])]))
     = Some (200, JObj [])
   \<and> \<not> exactly_one_key (JObj [])"
  by (simp add: pipeline_defs exactly_one_key_def)

text \<open>
  C6, amended: every response the adapter sends, for any registrations, any request and
  any outcome, has status 200, and its body either has exactly one of the keys
  \<open>success\<close> and \<open>error\<close> or is the empty object \<open>{}\<close> sent by the auto-empty-response
  step (which only the afterSave and afterDelete chains contain).
\<close>

theorem C6_status_200_and_envelope_or_empty:
  assumes "sent (handle_request (install sdk regs (express_app key)) m p h b) = Some (code, body)"
  shows "code = 200
       \<and> (exactly_one_key body
          \<or> (body = JObj []
              \<and> SEmptyResponse
                  \<in> set (trace (handle_request (install sdk regs (express_app key)) m p h b))))"
  using envelope_handle_request [of sdk regs key m p h b] assms
  by (simp add: envelope_or_empty_def)

theorem C6_status_200_and_envelope_or_empty_witness:
  "sent (handle_request
      (install plain_sdk [CloudDefine (JStr ''hello'') greeting_function]
         (express_app (Some ''secret'')))
      POST ''/function_hello'' (Some ''secret'') (JObj []))
     = Some (200, JObj [(''success'', JStr ''hello'')])
   \<and> exactly_one_key (JObj [(''success'', JStr ''hello'')])"
proof -
  have s: "sent (handle_request
      (install plain_sdk [CloudDefine (JStr ''hello'') greeting_function]
         (express_app (Some ''secret'')))
      POST ''/function_hello'' (Some ''secret'') (JObj []))
     = Some (200, JObj [(''success'', JStr ''hello'')])"
    by (simp add: pipeline_defs)
  show ?thesis
    using s C6_status_200_and_envelope_or_empty [OF s] by simp
qed

section \<open>afterSave and afterDelete routes\<close>

lemma after_prefix_passes:
  assumes "inflated_object sdk b = Inr ob" and "user_inflates sdk b"
  shows "\<exists>c'. run_chain (hook_prefix sdk cn at @ [emptyResponse]) (admitted POST p key b)
                 = (c', True)
           \<and> sent c' = Some (200, JObj [])
           \<and> trace c' = [SValidateWebhookRequest, SJsonParser, SEntryLogger,
                 SUpdateRequestInstallationId, SAddParseResponseMethods, SInflateParseObject,
                 SInflateParseUser, SEmptyResponse]"
proof -
  obtain c0 where c0: "run_chain (hook_prefix sdk cn at) (admitted POST p key b) = (c0, True)"
      "sent c0 = None" "thrown c0 = None"
      "trace c0 = [SValidateWebhookRequest, SJsonParser, SEntryLogger,
                 SUpdateRequestInstallationId, SAddParseResponseMethods, SInflateParseObject,
                 SInflateParseUser]"
    using hook_prefix_passes [OF assms, of cn at p key] by blast
  have "run_chain [emptyResponse] c0
      = ((enter SEmptyResponse c0)\<lparr>sent := Some (200, JObj [])\<rparr>, True)"
    using c0(2,3) by (simp add: emptyResponse_def Let_def status_send_def enter_def)
  then show ?thesis
    using c0 by (simp add: run_chain_append enter_def)
qed

lemma after_route_run:
  assumes "ms = hook_prefix sdk cn at @ [emptyResponse]"
    and "inflated_object sdk b = Inr ob" and "user_inflates sdk b"
    and "c1 = handler_entry (ms @ [hook_handler sdk h]) (admitted POST p key b)"
  shows "run_chain (ms @ [hook_handler sdk h]) (admitted POST p key b)
           = (run_actions sdk (h c1) c1, False)
       \<and> sent c1 = Some (200, JObj [])
       \<and> trace c1 = [SValidateWebhookRequest, SJsonParser, SEntryLogger,
             SUpdateRequestInstallationId, SAddParseResponseMethods, SInflateParseObject,
             SInflateParseUser, SEmptyResponse, SHandler]"
proof -
  obtain c' where c': "run_chain ms (admitted POST p key b) = (c', True)"
      "sent c' = Some (200, JObj [])"
      "trace c' = [SValidateWebhookRequest, SJsonParser, SEntryLogger,
                 SUpdateRequestInstallationId, SAddParseResponseMethods, SInflateParseObject,
                 SInflateParseUser, SEmptyResponse]"
    unfolding assms(1) using after_prefix_passes [OF assms(2,3), of cn at p key] by blast
  have "c1 = enter SHandler c'"
    using c'(1) by (simp add: assms(4) handler_entry_snoc)
  then show ?thesis
    using c' run_chain_hook_handler [OF c'(1), of sdk h] assms(4) by (simp add: enter_def)
qed

text \<open>
  C3, as stated, fails: the body sent on an afterSave route is the bare \<open>{}\<close>, not the
  empty object inside the success envelope, \<open>{success: {}}\<close>.
\<close>

theorem C3_not_wrapped_counterexample:
  "sent (handle_request
      (install plain_sdk [CloudAfterSave (JStr ''Post'') accept_hook]
         (express_app (Some ''secret'')))
      POST ''/afterSave_Post'' (Some ''secret'')
      (JObj [(''object'', JObj [(''className'', JStr ''Post'')])]))
     \<noteq> Some (200, JObj [(''success'', JObj [])])"
  by (simp add: pipeline_defs)

text \<open>
  C3, amended: for an authorized POST request served by an afterSave or afterDelete
  route, whose object and user inflate, the response is the bare empty object \<open>{}\<close>
  with status 200 (no envelope key); it has been sent when the handler is entered
  (\<open>c1\<close> is the state the handler starts from, and \<open>emptyResponse\<close> precedes the handler
  in the trace); the handler is then run on that state as the last step, and whatever
  it does the transmitted response stays \<open>{}\<close>.
\<close>

theorem C3_after_hooks_send_bare_empty_object_first:
  assumes "first_route p (stack (install sdk regs (express_app key))) = Some ms"
    and "ms = afterSave_chain sdk cn h \<or> ms = afterDelete_chain sdk cn h"
    and "inflated_object sdk b = Inr ob" and "user_inflates sdk b"
    and "c1 = handler_entry ms (admitted POST p key b)"
  shows "sent c1 = Some (200, JObj [])
       \<and> trace c1 = [SValidateWebhookRequest, SJsonParser, SEntryLogger,
             SUpdateRequestInstallationId, SAddParseResponseMethods, SInflateParseObject,
             SInflateParseUser, SEmptyResponse, SHandler]
       \<and> handle_request (install sdk regs (express_app key)) POST p key b
           = run_actions sdk (h c1) c1
       \<and> sent (handle_request (install sdk regs (express_app key)) POST p key b)
           = Some (200, JObj [])
       \<and> trace (handle_request (install sdk regs (express_app key)) POST p key b)
           = trace c1"
proof -
  obtain at where ms: "ms = (hook_prefix sdk cn at @ [emptyResponse]) @ [hook_handler sdk h]"
    using assms(2) by (auto simp: chain_snoc)
  have run: "run_chain ms (admitted POST p key b) = (run_actions sdk (h c1) c1, False)"
    and c1: "sent c1 = Some (200, JObj [])"
      "trace c1 = [SValidateWebhookRequest, SJsonParser, SEntryLogger,
             SUpdateRequestInstallationId, SAddParseResponseMethods, SInflateParseObject,
             SInflateParseUser, SEmptyResponse, SHandler]"
    using after_route_run [OF refl assms(3,4), of c1 cn at h p key] assms(5)
    unfolding ms by simp_all
  have "handle_request (install sdk regs (express_app key)) POST p key b
      = run_actions sdk (h c1) c1"
    using handle_request_route [OF assms(1), of b] run by simp
  then show ?thesis
    using c1 run_actions_keeps_sent [OF c1(1)] by (simp add: run_actions_trace)
qed

theorem C3_after_hooks_send_bare_empty_object_first_witness:
  "first_route ''/afterSave_Post''
      (stack (install plain_sdk [CloudAfterSave (JStr ''Post'') accept_hook]
                (express_app (Some ''secret''))))
     = Some (afterSave_chain plain_sdk (JStr ''Post'') accept_hook)
   \<and> inflated_object plain_sdk (JObj [(''object'', JObj [(''className'', JStr ''Post'')])])
       = Inr [(''className'', JStr ''Post'')]
   \<and> user_inflates plain_sdk (JObj [(''object'', JObj [(''className'', JStr ''Post'')])])
   \<and> sent (handle_request
        (install plain_sdk [CloudAfterSave (JStr ''Post'') accept_hook]
           (express_app (Some ''secret'')))
        POST ''/afterSave_Post'' (Some ''secret'')
        (JObj [(''object'', JObj [(''className'', JStr ''Post'')])]))
       = Some (200, JObj [])"
proof -
  have r: "first_route ''/afterSave_Post''
      (stack (install plain_sdk [CloudAfterSave (JStr ''Post'') accept_hook]
                (express_app (Some ''secret''))))
     = Some (afterSave_chain plain_sdk (JStr ''Post'') accept_hook)"
    by (simp add: registration_defs)
  have i: "inflated_object plain_sdk (JObj [(''object'', JObj [(''className'', JStr ''Post'')])])
       = Inr [(''className'', JStr ''Post'')]"
    by (simp add: inflated_object_def inflate_from_object_def plain_sdk_def)
  have u: "user_inflates plain_sdk (JObj [(''object'', JObj [(''className'', JStr ''Post'')])])"
    by (simp add: user_inflates_def)
  show ?thesis
    using r i u C3_after_hooks_send_bare_empty_object_first [OF r disjI1 [OF refl] i u refl]
    by blast
qed

section \<open>beforeSave routes\<close>

lemma beforeSave_route_run:
  assumes "inflated_object sdk b = Inr ob" and "user_inflates sdk b"
    and "c1 = handler_entry (beforeSave_chain sdk cn h) (admitted POST p key b)"
  shows "run_chain (beforeSave_chain sdk cn h) (admitted POST p key b)
           = (run_actions sdk (h c1) c1, False)
       \<and> sent c1 = None \<and> thrown c1 = None \<and> req_object c1 = Some ob
       \<and> res_success c1 = EchoObject ParseSuccess \<and> res_error c1 = ParseError"
proof -
  obtain c0 where c0:
      "run_chain (hook_prefix sdk cn ''beforeSave'') (admitted POST p key b) = (c0, True)"
      "sent c0 = None" "thrown c0 = None" "res_success c0 = ParseSuccess"
      "res_error c0 = ParseError" "req_object c0 = Some ob"
    using hook_prefix_passes [OF assms(1,2), of cn "''beforeSave''" p key] by blast
  define ms where "ms = hook_prefix sdk cn ''beforeSave'' @ [beforeSaveResponseMojo]"
  define c' where
    "c' = (enter SBeforeSaveResponseMojo c0)\<lparr>res_success := EchoObject ParseSuccess\<rparr>"
  have chain: "beforeSave_chain sdk cn h = ms @ [hook_handler sdk h]"
    unfolding ms_def by (rule chain_snoc)
  have run: "run_chain ms (admitted POST p key b) = (c', True)"
    using c0(1,4)
    by (simp add: ms_def run_chain_append beforeSaveResponseMojo_def Let_def c'_def enter_def)
  have "c1 = enter SHandler c'"
    using run by (simp add: assms(3) chain handler_entry_snoc)
  then show ?thesis
    using c0 run_chain_hook_handler [OF run, of sdk h] assms(3)
    by (simp add: chain c'_def enter_def)
qed

lemma echo_after_mutations:
  assumes "sent c = None" and "thrown c = None" and "req_object c = Some ob"
    and "res_success c = EchoObject ParseSuccess"
  shows "sent (run_actions sdk (map Mutate fs @ CallSuccess x # rest) c)
           = Some (200, JObj [(''success'', JObj (toJSON sdk (fold (\<lambda>f ob. f ob) fs ob)))])"
proof -
  define c' where
    "c' = c\<lparr>req_object := map_option (fold (\<lambda>f ob. f ob) fs) (req_object c)\<rparr>"
  have 1: "run_actions sdk (map Mutate fs @ CallSuccess x # rest) c
      = run_actions sdk (CallSuccess x # rest) c'"
    unfolding c'_def by (rule run_actions_mutations [OF assms(2)])
  have 2: "sent (do_action sdk (CallSuccess x) c')
      = Some (200, JObj [(''success'', JObj (toJSON sdk (fold (\<lambda>f ob. f ob) fs ob)))])"
    using assms by (simp add: c'_def successResponse_def status_send_def or_true_def)
  have "thrown c' = None" using assms(2) by (simp add: c'_def)
  then show ?thesis
    unfolding 1 using run_actions_keeps_sent [OF 2, of sdk rest] by simp
qed

lemma beforeSave_route_echo:
  assumes "first_route p (stack (install sdk regs (express_app key)))
             = Some (beforeSave_chain sdk cn h)"
    and "inflated_object sdk b = Inr ob" and "user_inflates sdk b"
    and "h (handler_entry (beforeSave_chain sdk cn h) (admitted POST p key b))
           = map Mutate fs @ CallSuccess x # rest"
  shows "sent (handle_request (install sdk regs (express_app key)) POST p key b)
           = Some (200, JObj [(''success'', JObj (toJSON sdk (fold (\<lambda>f ob. f ob) fs ob)))])"
proof -
  define c1 where "c1 = handler_entry (beforeSave_chain sdk cn h) (admitted POST p key b)"
  have run: "run_chain (beforeSave_chain sdk cn h) (admitted POST p key b)
           = (run_actions sdk (h c1) c1, False)"
    and c1: "sent c1 = None" "thrown c1 = None" "req_object c1 = Some ob"
      "res_success c1 = EchoObject ParseSuccess"
    using beforeSave_route_run [OF assms(2,3) c1_def] by simp_all
  have "handle_request (install sdk regs (express_app key)) POST p key b
      = run_actions sdk (h c1) c1"
    using handle_request_route [OF assms(1), of b] run by simp
  moreover have "h c1 = map Mutate fs @ CallSuccess x # rest"
    using assms(4) by (simp add: c1_def)
  ultimately show ?thesis
    using echo_after_mutations [OF c1, of sdk fs x rest] by simp
qed

text \<open>
  C10: on a beforeSave route, for an authorized request whose object and user inflate,
  a handler that changes \<open>req.object\<close> (by the functions \<open>fs\<close>, in order) and then
  calls \<open>res.success(x)\<close> gets the response \<open>{success: J}\<close>, where \<open>J\<close> is \<open>toJSON\<close> of
  the object as changed; this holds for every argument \<open>x\<close>, so the response is
  \<open>{success: x}\<close> for no \<open>x\<close> other than \<open>J\<close> itself.
\<close>

theorem C10_beforeSave_success_ignores_argument:
  assumes "first_route p (stack (install sdk regs (express_app key)))
             = Some (beforeSave_chain sdk cn h)"
    and "inflated_object sdk b = Inr ob" and "user_inflates sdk b"
    and "h (handler_entry (beforeSave_chain sdk cn h) (admitted POST p key b))
           = map Mutate fs @ CallSuccess x # rest"
  shows "sent (handle_request (install sdk regs (express_app key)) POST p key b)
           = Some (200, JObj [(''success'', JObj (toJSON sdk (fold (\<lambda>f ob. f ob) fs ob)))])
       \<and> (x \<noteq> JObj (toJSON sdk (fold (\<lambda>f ob. f ob) fs ob)) \<longrightarrow>
            sent (handle_request (install sdk regs (express_app key)) POST p key b)
              \<noteq> Some (200, JObj [(''success'', x)]))"
  using beforeSave_route_echo [OF assms] by auto

theorem C10_beforeSave_success_ignores_argument_witness:
  "first_route ''/beforeSave_Post''
      (stack (install plain_sdk [CloudBeforeSave (JStr ''Post'') retitling_hook]
                (express_app (Some ''secret''))))
     = Some (beforeSave_chain plain_sdk (JStr ''Post'') retitling_hook)
   \<and> inflated_object plain_sdk (JObj [(''object'', JObj [(''title'', JStr ''a'')])])
       = Inr [(''title'', JStr ''a'')]
   \<and> user_inflates plain_sdk (JObj [(''object'', JObj [(''title'', JStr ''a'')])])
   \<and> JStr ''ignored'' \<noteq> JObj [(''title'', JStr ''b'')]
   \<and> sent (handle_request
        (install plain_sdk [CloudBeforeSave (JStr ''Post'') retitling_hook]
           (express_app (Some ''secret'')))
        POST ''/beforeSave_Post'' (Some ''secret'')
        (JObj [(''object'', JObj [(''title'', JStr ''a'')])]))
       = Some (200, JObj [(''success'', JObj [(''title'', JStr ''b'')])])"
proof -
  have r: "first_route ''/beforeSave_Post''
      (stack (install plain_sdk [CloudBeforeSave (JStr ''Post'') retitling_hook]
                (express_app (Some ''secret''))))
     = Some (beforeSave_chain plain_sdk (JStr ''Post'') retitling_hook)"
    by (simp add: registration_defs)
  have i: "inflated_object plain_sdk (JObj [(''object'', JObj [(''title'', JStr ''a'')])])
       = Inr [(''title'', JStr ''a'')]"
    by (simp add: inflated_object_def inflate_from_object_def plain_sdk_def)
  have u: "user_inflates plain_sdk (JObj [(''object'', JObj [(''title'', JStr ''a'')])])"
    by (simp add: user_inflates_def)
  have h: "retitling_hook
      (handler_entry (beforeSave_chain plain_sdk (JStr ''Post'') retitling_hook)
         (admitted POST ''/beforeSave_Post'' (Some ''secret'')
            (JObj [(''object'', JObj [(''title'', JStr ''a'')])])))
     = map Mutate [assign_prop ''title'' (JStr ''b'')] @ CallSuccess (JStr ''ignored'') # []"
    by (simp add: retitling_hook_def)
  have e: "toJSON plain_sdk (fold (\<lambda>f ob. f ob) [assign_prop ''title'' (JStr ''b'')]
      [(''title'', JStr ''a'')]) = [(''title'', JStr ''b'')]"
    by (simp add: plain_sdk_def)
  show ?thesis
    using r i u C10_beforeSave_success_ignores_argument [OF r i u h] unfolding e
    by simp
qed

text \<open>
  C4, as stated, fails in its round-trip half: with an SDK whose \<open>toJSON\<close> leaves the
  class name out, as the Parse SDK's does, a handler that changes nothing and calls
  \<open>res.success()\<close> is answered with \<open>{success: {objectId: "1", title: "a"}}\<close>, which
  is not the object \<open>O\<close> of the request.
\<close>

theorem C4_round_trip_counterexample:
  "sent (handle_request
      (install class_sdk [CloudBeforeSave (JStr ''Post'') accept_hook]
         (express_app (Some ''secret'')))
      POST ''/beforeSave_Post'' (Some ''secret'')
      (JObj [(''object'',
         JObj [(''className'', JStr ''Post''), (''objectId'', JStr ''1''),
               (''title'', JStr ''a'')])]))
     \<noteq> Some (200, JObj [(''success'',
         JObj [(''className'', JStr ''Post''), (''objectId'', JStr ''1''),
               (''title'', JStr ''a'')])])"
  by (simp add: pipeline_defs class_sdk_def)

text \<open>
  C4, amended: on a beforeSave route, for an authorized request with body \<open>{object: O}\<close>
  whose object inflates to \<open>ob\<close>, a handler that changes the object (by \<open>fs\<close>) and calls
  \<open>res.success()\<close> with no argument gets the response \<open>{success: J}\<close>, where \<open>J\<close> is
  \<open>toJSON\<close> of the object as it is at the call. Without a change \<open>J\<close> is \<open>toJSON\<close> of the
  object inflated from \<open>O\<close>; the response then carries \<open>O\<close> itself exactly when the
  SDK's \<open>toJSON\<close> gives \<open>O\<close> back for that object, which the adapter does not ensure.
\<close>

theorem C4_beforeSave_echoes_object:
  assumes "first_route p (stack (install sdk regs (express_app key)))
             = Some (beforeSave_chain sdk cn h)"
    and "fromJSON sdk obj_json = Inr ob"
    and "h (handler_entry (beforeSave_chain sdk cn h)
              (admitted POST p key (JObj [(''object'', obj_json)])))
           = map Mutate fs @ CallSuccess JUndefined # rest"
  shows "sent (handle_request (install sdk regs (express_app key)) POST p key
                 (JObj [(''object'', obj_json)]))
           = Some (200, JObj [(''success'', JObj (toJSON sdk (fold (\<lambda>f ob. f ob) fs ob)))])
       \<and> (fs = [] \<longrightarrow>
            sent (handle_request (install sdk regs (express_app key)) POST p key
                    (JObj [(''object'', obj_json)]))
              = Some (200, JObj [(''success'', JObj (toJSON sdk ob))])
            \<and> (sent (handle_request (install sdk regs (express_app key)) POST p key
                       (JObj [(''object'', obj_json)]))
                  = Some (200, JObj [(''success'', obj_json)])
                \<longleftrightarrow> JObj (toJSON sdk ob) = obj_json))"
proof -
  have i: "inflated_object sdk (JObj [(''object'', obj_json)]) = Inr ob"
    using assms(2) by (simp add: inflated_object_def inflate_from_object_def)
  have u: "user_inflates sdk (JObj [(''object'', obj_json)])"
    by (simp add: user_inflates_def)
  show ?thesis
    using beforeSave_route_echo [OF assms(1) i u assms(3)] by auto
qed

theorem C4_beforeSave_echoes_object_witness:
  "first_route ''/beforeSave_Post''
      (stack (install class_sdk [CloudBeforeSave (JStr ''Post'') accept_hook]
                (express_app (Some ''secret''))))
     = Some (beforeSave_chain class_sdk (JStr ''Post'') accept_hook)
   \<and> fromJSON class_sdk
        (JObj [(''className'', JStr ''Post''), (''objectId'', JStr ''1''), (''title'', JStr ''a'')])
       = Inr (''Post'', [(''objectId'', JStr ''1''), (''title'', JStr ''a'')])
   \<and> sent (handle_request
        (install class_sdk [CloudBeforeSave (JStr ''Post'') accept_hook]
           (express_app (Some ''secret'')))
        POST ''/beforeSave_Post'' (Some ''secret'')
        (JObj [(''object'',
           JObj [(''className'', JStr ''Post''), (''objectId'', JStr ''1''),
                 (''title'', JStr ''a'')])]))
       = Some (200, JObj [(''success'',
           JObj [(''objectId'', JStr ''1''), (''title'', JStr ''a'')])])"
proof -
  have r: "first_route ''/beforeSave_Post''
      (stack (install class_sdk [CloudBeforeSave (JStr ''Post'') accept_hook]
                (express_app (Some ''secret''))))
     = Some (beforeSave_chain class_sdk (JStr ''Post'') accept_hook)"
    by (simp add: registration_defs)
  have f: "fromJSON class_sdk
        (JObj [(''className'', JStr ''Post''), (''objectId'', JStr ''1''), (''title'', JStr ''a'')])
       = Inr (''Post'', [(''objectId'', JStr ''1''), (''title'', JStr ''a'')])"
    by (simp add: class_sdk_def)
  have h: "accept_hook
      (handler_entry (beforeSave_chain class_sdk (JStr ''Post'') accept_hook)
         (admitted POST ''/beforeSave_Post'' (Some ''secret'')
            (JObj [(''object'',
               JObj [(''className'', JStr ''Post''), (''objectId'', JStr ''1''),
                     (''title'', JStr ''a'')])])))
     = map Mutate [] @ CallSuccess JUndefined # []"
    by (simp add: accept_hook_def)
  have e: "toJSON class_sdk (''Post'', [(''objectId'', JStr ''1''), (''title'', JStr ''a'')])
     = [(''objectId'', JStr ''1''), (''title'', JStr ''a'')]"
    by (simp add: class_sdk_def)
  show ?thesis
    using r f C4_beforeSave_echoes_object [OF r f h] e by simp
qed

section \<open>Function routes\<close>

lemma function_route_run:
  assumes "user_inflates sdk b"
    and "c1 = handler_entry (function_chain sdk fn h) (admitted POST p key b)"
  shows "run_chain (function_chain sdk fn h) (admitted POST p key b)
           = (then_catch sdk (h c1) c1, False)
       \<and> sent c1 = None \<and> thrown c1 = None
       \<and> res_success c1 = EncodeWrap ParseSuccess \<and> res_error c1 = ParseError"
proof -
  have d: "b \<noteq> JUndefined" "b \<noteq> JNull"
    using user_inflates_defined [OF assms(1)] by simp_all
  obtain i where i: "member b ''installationId'' = Inr i"
    using member_defined [OF d] by blast
  obtain ps where ps: "member b ''params'' = Inr ps"
    using member_defined [OF d] by blast
  define c5 :: "'a ctx" where "c5 = (admitted POST p key b)
      \<lparr>req_installationId := i, req_params := ps,
       res_success := EncodeWrap ParseSuccess, res_error := ParseError,
       trace := [SValidateWebhookRequest, SJsonParser, SEntryLogger,
                 SUpdateRequestInstallationId, SUpdateRequestFunctionParams,
                 SAddParseResponseMethods, SEncodeSuccessResponseObject]\<rparr>"
  have five: "run_chain [entryLogger fn ''function'', updateRequestInstallationId,
      updateRequestFunctionParams, addParseResponseMethods, encodeSuccessResponseObject]
      (admitted POST p key b) = (c5, True)"
    using i ps
    by (simp add: entryLogger_def updateRequestInstallationId_def
        updateRequestFunctionParams_def addParseResponseMethods_def
        encodeSuccessResponseObject_def Let_def enter_def c5_def)
  have "user_inflates sdk (req_body c5)"
    using assms(1) by (simp add: c5_def)
  then obtain c6 where c6: "inflateParseUser sdk c5 = (c6, True)" "sent c6 = sent c5"
      "thrown c6 = thrown c5" "res_success c6 = res_success c5" "res_error c6 = res_error c5"
    using inflateParseUser_passes [of sdk c5] by blast
  define ms where "ms = [entryLogger fn ''function'', updateRequestInstallationId,
      updateRequestFunctionParams, addParseResponseMethods, encodeSuccessResponseObject]
      @ [inflateParseUser sdk]"
  have chain: "function_chain sdk fn h = ms @ [function_handler sdk h]"
    by (simp add: function_chain_def ms_def)
  have run: "run_chain ms (admitted POST p key b) = (c6, True)"
    unfolding ms_def using five c6(1) by (simp only: run_chain_append) simp
  have "c1 = enter SHandler c6"
    using run by (simp add: assms(2) chain handler_entry_snoc)
  then show ?thesis
    using c6 run_chain_function_handler [OF run, of sdk h] assms(2)
    by (simp add: chain c5_def enter_def)
qed

lemma then_catch_response:
  assumes "sent c = None" and "thrown c = None"
    and "res_success c = EncodeWrap ParseSuccess" and "res_error c = ParseError"
  shows "encode sdk v = Inr w \<Longrightarrow>
           sent (then_catch sdk (Resolves v) c) = Some (200, JObj [(''success'', or_true w)])"
    and "sent (then_catch sdk (Rejects e) c) = Some (200, JObj [(''error'', or_true e)])"
  using assms
  by (simp_all add: then_catch_def successResponse_def errorResponse_def status_send_def)

lemma function_route_response:
  assumes "first_route p (stack (install sdk regs (express_app key)))
             = Some (function_chain sdk fn h)"
    and "user_inflates sdk b"
    and "c1 = handler_entry (function_chain sdk fn h) (admitted POST p key b)"
  shows "h c1 = Resolves v \<Longrightarrow> encode sdk v = Inr w \<Longrightarrow>
           sent (handle_request (install sdk regs (express_app key)) POST p key b)
             = Some (200, JObj [(''success'', or_true w)])"
    and "h c1 = Rejects e \<Longrightarrow>
           sent (handle_request (install sdk regs (express_app key)) POST p key b)
             = Some (200, JObj [(''error'', or_true e)])"
proof -
  have run: "run_chain (function_chain sdk fn h) (admitted POST p key b)
           = (then_catch sdk (h c1) c1, False)"
    and c1: "sent c1 = None" "thrown c1 = None"
      "res_success c1 = EncodeWrap ParseSuccess" "res_error c1 = ParseError"
    using function_route_run [OF assms(2,3)] by simp_all
  have hr: "handle_request (install sdk regs (express_app key)) POST p key b
      = then_catch sdk (h c1) c1"
    using handle_request_route [OF assms(1), of b] run by simp
  show "h c1 = Resolves v \<Longrightarrow> encode sdk v = Inr w \<Longrightarrow>
           sent (handle_request (install sdk regs (express_app key)) POST p key b)
             = Some (200, JObj [(''success'', or_true w)])"
    using hr then_catch_response(1) [OF c1, of sdk v w] by simp
  show "h c1 = Rejects e \<Longrightarrow>
           sent (handle_request (install sdk regs (express_app key)) POST p key b)
             = Some (200, JObj [(''error'', or_true e)])"
    using hr then_catch_response(2) [OF c1, of sdk e] by simp
qed

text \<open>
  C2, as stated, fails: a function handler whose promise rejects with \<open>false\<close> gets the
  response \<open>{error: true}\<close>, not \<open>{error: false}\<close>.
\<close>

theorem C2_falsy_rejection_counterexample:
  "sent (handle_request
      (install plain_sdk [CloudDefine (JStr ''check'') refusing_function]
         (express_app (Some ''secret'')))
      POST ''/function_check'' (Some ''secret'') (JObj []))
     \<noteq> Some (200, JObj [(''error'', JBool False)])"
  by (simp add: pipeline_defs)

text \<open>
  C2, amended: on a function route, for an authorized request whose user inflates, if
  the handler's promise resolves with \<open>V\<close> and the encoder yields \<open>W\<close> for \<open>V\<close>, the
  response is \<open>{success: W || true}\<close>, that is \<open>{success: encode(V)}\<close> when the encoded
  value is truthy and \<open>{success: true}\<close> when it is falsy; if the promise rejects with
  \<open>E\<close> the response is \<open>{error: E || true}\<close>, with \<open>E\<close> not encoded: \<open>{error: E}\<close> when
  \<open>E\<close> is truthy and \<open>{error: true}\<close> when it is falsy. Both have status 200.
\<close>

theorem C2_function_result_or_rejection:
  assumes "first_route p (stack (install sdk regs (express_app key)))
             = Some (function_chain sdk fn h)"
    and "user_inflates sdk b"
    and "c1 = handler_entry (function_chain sdk fn h) (admitted POST p key b)"
  shows "(h c1 = Resolves v \<and> encode sdk v = Inr w \<longrightarrow>
            sent (handle_request (install sdk regs (express_app key)) POST p key b)
              = Some (200, JObj [(''success'', if truthy w then w else JBool True)]))
       \<and> (h c1 = Rejects e \<longrightarrow>
            sent (handle_request (install sdk regs (express_app key)) POST p key b)
              = Some (200, JObj [(''error'', if truthy e then e else JBool True)]))"
  using function_route_response [OF assms] by (simp add: or_true_def)

theorem C2_function_result_or_rejection_witness:
  "first_route ''/function_hello''
      (stack (install plain_sdk [CloudDefine (JStr ''hello'') greeting_function]
                (express_app (Some ''secret''))))
     = Some (function_chain plain_sdk (JStr ''hello'') greeting_function)
   \<and> user_inflates plain_sdk (JObj [])
   \<and> sent (handle_request
        (install plain_sdk [CloudDefine (JStr ''hello'') greeting_function]
           (express_app (Some ''secret'')))
        POST ''/function_hello'' (Some ''secret'') (JObj []))
       = Some (200, JObj [(''success'', JStr ''hello'')])"
proof -
  have r: "first_route ''/function_hello''
      (stack (install plain_sdk [CloudDefine (JStr ''hello'') greeting_function]
                (express_app (Some ''secret''))))
     = Some (function_chain plain_sdk (JStr ''hello'') greeting_function)"
    by (simp add: registration_defs)
  have u: "user_inflates plain_sdk (JObj [])"
    by (simp add: user_inflates_def)
  have h: "greeting_function
      (handler_entry (function_chain plain_sdk (JStr ''hello'') greeting_function)
         (admitted POST ''/function_hello'' (Some ''secret'') (JObj [])))
     = Resolves (JStr ''hello'')"
    by (simp add: greeting_function_def)
  have e: "encode plain_sdk (JStr ''hello'') = Inr (JStr ''hello'')"
    by (simp add: plain_sdk_def)
  show ?thesis
    using r u h e
      C2_function_result_or_rejection [OF r u refl, of "JStr ''hello''" "JStr ''hello''"]
    by simp
qed

section \<open>Object inflation\<close>

text \<open>
  C7, as stated, fails: a body that contains \<open>original\<close> and \<open>update\<close>, with \<open>update\<close>
  being \<open>null\<close>, is inflated from its \<open>object\<close> field and not from \<open>original\<close>.
\<close>

theorem C7_present_but_falsy_counterexample:
  "inflated_object plain_sdk
      (JObj [(''original'', JObj [(''title'', JStr ''a'')]), (''update'', JNull),
             (''object'', JObj [(''title'', JStr ''b'')])])
     \<noteq> spec_inflated_object plain_sdk
      (JObj [(''original'', JObj [(''title'', JStr ''a'')]), (''update'', JNull),
             (''object'', JObj [(''title'', JStr ''b'')])])"
  by (simp add: inflated_object_def spec_inflated_object_def inflate_from_object_def
      inflate_from_update_def plain_sdk_def)

text \<open>
  C7, amended: object inflation tests the two fields for truthiness. If the body's
  \<open>original\<close> and \<open>update\<close> are both truthy (as every JSON object is), \<open>req.object\<close> is
  the object reconstructed from \<open>original\<close> on which the decoded \<open>update\<close> has been
  set; otherwise (a field absent, or \<open>null\<close>, \<open>false\<close>, \<open>0\<close> or the empty string) it is
  the object reconstructed from the body's \<open>object\<close> field. In both cases the
  middleware then passes the request on.
\<close>

theorem C7_inflation_by_truthiness:
  assumes "req_body c = body"
    and "member body ''original'' = Inr original"
    and "member body ''update'' = Inr update"
    and "member body ''object'' = Inr object_json"
  shows "(truthy original \<and> truthy update \<and> fromJSON sdk original = Inr ob
            \<and> decode sdk update = Inr attrs \<and> set_attrs sdk ob attrs = Inr ob' \<longrightarrow>
          inflateParseObject sdk c
            = ((enter SInflateParseObject c)\<lparr>req_object := Some ob'\<rparr>, True))
       \<and> (\<not> (truthy original \<and> truthy update) \<and> fromJSON sdk object_json = Inr ob \<longrightarrow>
          inflateParseObject sdk c
            = ((enter SInflateParseObject c)\<lparr>req_object := Some ob\<rparr>, True))"
  using assms
  by (auto simp: inflateParseObject_def inflated_object_def inflate_from_update_def
      inflate_from_object_def Let_def enter_def)

theorem C7_inflation_by_truthiness_witness:
  "member (JObj [(''original'', JObj [(''title'', JStr ''a''), (''likes'', JNum 1)]),
                 (''update'', JObj [(''title'', JStr ''b'')])]) ''original''
     = Inr (JObj [(''title'', JStr ''a''), (''likes'', JNum 1)])
   \<and> truthy (JObj [(''title'', JStr ''a''), (''likes'', JNum 1)])
   \<and> truthy (JObj [(''title'', JStr ''b'')])
   \<and> req_object (fst (inflateParseObject plain_sdk
        (admitted POST ''/beforeSave_Post'' (Some ''secret'')
           (JObj [(''original'', JObj [(''title'', JStr ''a''), (''likes'', JNum 1)]),
                  (''update'', JObj [(''title'', JStr ''b'')])]))))
       = Some [(''title'', JStr ''b''), (''likes'', JNum 1)]"
proof -
  define body where "body = JObj [(''original'', JObj [(''title'', JStr ''a''), (''likes'', JNum 1)]),
                  (''update'', JObj [(''title'', JStr ''b'')])]"
  have b: "req_body (admitted POST ''/beforeSave_Post'' (Some ''secret'') body
      :: (string \<times> jsval) list ctx) = body"
    by simp
  have m1: "member body ''original'' = Inr (JObj [(''title'', JStr ''a''), (''likes'', JNum 1)])"
    by (simp add: body_def)
  have m2: "member body ''update'' = Inr (JObj [(''title'', JStr ''b'')])"
    by (simp add: body_def)
  have m3: "member body ''object'' = Inr JUndefined"
    by (simp add: body_def)
  have s: "fromJSON plain_sdk (JObj [(''title'', JStr ''a''), (''likes'', JNum 1)])
        = Inr [(''title'', JStr ''a''), (''likes'', JNum 1)]
      \<and> decode plain_sdk (JObj [(''title'', JStr ''b'')]) = Inr (JObj [(''title'', JStr ''b'')])
      \<and> set_attrs plain_sdk [(''title'', JStr ''a''), (''likes'', JNum 1)]
          (JObj [(''title'', JStr ''b'')]) = Inr [(''title'', JStr ''b''), (''likes'', JNum 1)]"
    by (simp add: plain_sdk_def)
  show ?thesis
    using m1 s C7_inflation_by_truthiness [OF b m1 m2 m3, of plain_sdk
        "[(''title'', JStr ''a''), (''likes'', JNum 1)]" "JObj [(''title'', JStr ''b'')]"
        "[(''title'', JStr ''b''), (''likes'', JNum 1)]"]
    unfolding body_def by simp
qed

section \<open>Identifier derivation\<close>

lemma inflateObjectsToClassNames_class_name:
  assumes "member v ''className'' = Inr (JStr s)" and "s \<noteq> []"
  shows "inflateObjectsToClassNames methodToWrap v h a = Inr (methodToWrap (JStr s) h a)"
    and "inflateObjectsToClassNames methodToWrap (JStr s) h a = Inr (methodToWrap (JStr s) h a)"
  using assms by (auto simp: inflateObjectsToClassNames_def)

lemma inflateObjectsToClassNames_itself:
  assumes "w = JNull \<or> (member w ''className'' = Inr cn \<and> \<not> truthy cn)"
  shows "inflateObjectsToClassNames methodToWrap w h a = Inr (methodToWrap w h a)"
  using assms by (auto simp: inflateObjectsToClassNames_def)

lemma inflateObjectsToClassNames_undefined:
  "inflateObjectsToClassNames methodToWrap JUndefined h a = Inl type_error"
  by (simp add: inflateObjectsToClassNames_def)

text \<open>
  C8, as stated, fails for the function kind: \<open>Parse.Cloud.define\<close> does not derive an
  identifier, so registering with an object that carries the class name \<open>Post\<close> records
  the object itself and binds the path of its string conversion, unlike registering
  with the string \<open>Post\<close>.
\<close>

theorem C8_define_counterexample:
  "register plain_sdk (CloudDefine (JObj [(''className'', JStr ''Post'')]) null_function)
      (express_app (Some ''secret''))
     = Inr (define_function plain_sdk (JObj [(''className'', JStr ''Post'')]) null_function
              (express_app (Some ''secret'')))
   \<and> register plain_sdk (CloudDefine (JStr ''Post'') null_function)
        (express_app (Some ''secret''))
     = Inr (define_function plain_sdk (JStr ''Post'') null_function
              (express_app (Some ''secret'')))
   \<and> Routes (define_function plain_sdk (JObj [(''className'', JStr ''Post'')]) null_function
        (express_app (Some ''secret''))) Function
     \<noteq> Routes (define_function plain_sdk (JStr ''Post'') null_function
        (express_app (Some ''secret''))) Function
   \<and> layer_paths (stack (define_function plain_sdk (JObj [(''className'', JStr ''Post'')])
        null_function (express_app (Some ''secret''))))
     \<noteq> layer_paths (stack (define_function plain_sdk (JStr ''Post'') null_function
        (express_app (Some ''secret''))))"
  by (simp add: registration_defs)

text \<open>
  C8, amended: for each of the four hook registrations (beforeSave, afterSave,
  beforeDelete, afterDelete), registering with a value \<open>v\<close> whose class-name property is
  a non-empty string \<open>s\<close> is the same as registering with \<open>s\<close>: both make the raw
  registration for \<open>s\<close>, hence the same route path and the same table entry. A value
  \<open>w\<close> that is \<open>null\<close>, or whose class-name property is absent or falsy, is registered
  as the identifier itself. On \<open>undefined\<close> the property read throws and nothing is
  registered. \<open>Parse.Cloud.define\<close> always registers the value it is given.
\<close>

theorem C8_hooks_derive_identifier_from_class_name:
  assumes "member v ''className'' = Inr (JStr s)" and "s \<noteq> []"
    and "w = JNull \<or> (member w ''className'' = Inr cn \<and> \<not> truthy cn)"
  shows "register sdk (CloudBeforeSave v h) a = Inr (beforeSave sdk (JStr s) h a)
       \<and> register sdk (CloudBeforeSave (JStr s) h) a = Inr (beforeSave sdk (JStr s) h a)
       \<and> register sdk (CloudAfterSave v h) a = Inr (afterSave sdk (JStr s) h a)
       \<and> register sdk (CloudAfterSave (JStr s) h) a = Inr (afterSave sdk (JStr s) h a)
       \<and> register sdk (CloudBeforeDelete v h) a = Inr (beforeDelete sdk (JStr s) h a)
       \<and> register sdk (CloudBeforeDelete (JStr s) h) a = Inr (beforeDelete sdk (JStr s) h a)
       \<and> register sdk (CloudAfterDelete v h) a = Inr (afterDelete sdk (JStr s) h a)
       \<and> register sdk (CloudAfterDelete (JStr s) h) a = Inr (afterDelete sdk (JStr s) h a)
       \<and> register sdk (CloudBeforeSave w h) a = Inr (beforeSave sdk w h a)
       \<and> register sdk (CloudAfterSave w h) a = Inr (afterSave sdk w h a)
       \<and> register sdk (CloudBeforeDelete w h) a = Inr (beforeDelete sdk w h a)
       \<and> register sdk (CloudAfterDelete w h) a = Inr (afterDelete sdk w h a)
       \<and> register sdk (CloudBeforeSave JUndefined h) a = Inl type_error
       \<and> register sdk (CloudAfterSave JUndefined h) a = Inl type_error
       \<and> register sdk (CloudBeforeDelete JUndefined h) a = Inl type_error
       \<and> register sdk (CloudAfterDelete JUndefined h) a = Inl type_error
       \<and> register sdk (CloudDefine v f) a = Inr (define_function sdk v f a)"
  by (simp add: inflateObjectsToClassNames_class_name [OF assms(1,2)]
      inflateObjectsToClassNames_itself [OF assms(3)] inflateObjectsToClassNames_undefined)

theorem C8_hooks_derive_identifier_from_class_name_witness:
  "member (JObj [(''className'', JStr ''Post'')]) ''className'' = Inr (JStr ''Post'')
   \<and> ''Post'' \<noteq> []
   \<and> member (JStr ''Comment'') ''className'' = Inr JUndefined
   \<and> \<not> truthy JUndefined
   \<and> register plain_sdk (CloudBeforeSave (JObj [(''className'', JStr ''Post'')]) accept_hook)
        (express_app (Some ''secret''))
     = register plain_sdk (CloudBeforeSave (JStr ''Post'') accept_hook)
        (express_app (Some ''secret''))
   \<and> register plain_sdk (CloudAfterDelete (JStr ''Comment'') accept_hook)
        (express_app (Some ''secret''))
     = Inr (afterDelete plain_sdk (JStr ''Comment'') accept_hook (express_app (Some ''secret'')))
   \<and> register plain_sdk (CloudAfterSave JNull accept_hook) (express_app (Some ''secret''))
     = Inr (afterSave plain_sdk JNull accept_hook (express_app (Some ''secret'')))
   \<and> Routes (afterSave plain_sdk JNull accept_hook (express_app (Some ''secret''))) AfterSave
     = [JNull]
   \<and> layer_paths (stack (afterSave plain_sdk JNull accept_hook (express_app (Some ''secret''))))
     = [''/afterSave_null'']"
proof -
  have m: "member (JObj [(''className'', JStr ''Post'')]) ''className'' = Inr (JStr ''Post'')"
    by simp
  have n: "''Post'' \<noteq> []" by simp
  have m': "member (JStr ''Comment'') ''className'' = Inr JUndefined" by simp
  have f: "\<not> truthy JUndefined" by simp
  have w1: "JStr ''Comment'' = JNull
      \<or> (member (JStr ''Comment'') ''className'' = Inr JUndefined \<and> \<not> truthy JUndefined)"
    by simp
  have w2: "JNull = JNull \<or> (member JNull ''className'' = Inr JUndefined \<and> \<not> truthy JUndefined)"
    by simp
  have t1: "register plain_sdk (CloudBeforeSave (JObj [(''className'', JStr ''Post'')]) accept_hook)
        (express_app (Some ''secret''))
     = register plain_sdk (CloudBeforeSave (JStr ''Post'') accept_hook)
        (express_app (Some ''secret''))"
    and t2: "register plain_sdk (CloudAfterDelete (JStr ''Comment'') accept_hook)
        (express_app (Some ''secret''))
     = Inr (afterDelete plain_sdk (JStr ''Comment'') accept_hook (express_app (Some ''secret'')))"
    using C8_hooks_derive_identifier_from_class_name [OF m n w1, of plain_sdk
        accept_hook "express_app (Some ''secret'')" null_function]
    by (simp_all only:)
  have t3: "register plain_sdk (CloudAfterSave JNull accept_hook) (express_app (Some ''secret''))
     = Inr (afterSave plain_sdk JNull accept_hook (express_app (Some ''secret'')))"
    using C8_hooks_derive_identifier_from_class_name [OF m n w2, of plain_sdk
        accept_hook "express_app (Some ''secret'')" null_function]
    by (simp only:)
  have t4: "Routes (afterSave plain_sdk JNull accept_hook (express_app (Some ''secret''))) AfterSave
     = [JNull]
   \<and> layer_paths (stack (afterSave plain_sdk JNull accept_hook (express_app (Some ''secret''))))
     = [''/afterSave_null'']"
    by (simp add: registration_defs)
  show ?thesis
    using m n m' f t1 t2 t3 t4 by blast
qed


end
